theory Spec2Isabelle
  imports Main "HOL-Library.AList"
begin

section \<open>Values, parameters and errors\<close>

text \<open>
  Python values that travel through the wrapper. Sequences (the tuple \<open>args\<close>, the list
  built for the overflow) are \<open>VList\<close>; a \<open>dict\<close> with string keys is an association
  list in insertion order.
\<close>

datatype val = VNone | VInt int | VStr string | VList "val list" | VDict "(string \<times> val) list"

text \<open>\<open>inspect.Parameter.kind\<close>.\<close>

datatype kind = POSITIONAL_ONLY | POSITIONAL_OR_KEYWORD | VAR_POSITIONAL | KEYWORD_ONLY | VAR_KEYWORD

text \<open>
  Type annotations are opaque to \<open>decorator.py\<close>, except that it wraps the annotation of a
  variadic parameter in \<open>Tuple[_, ...]\<close> or \<open>Dict[str, _]\<close>.
\<close>

datatype annotation = Any | Declared string | TupleOf annotation | DictStrOf annotation

text \<open>
  One entry of \<open>signature(function).parameters\<close>. \<open>None\<close> stands for \<open>Parameter.empty\<close>
  in \<open>p_annotation\<close> and \<open>p_default\<close>.
\<close>

record parameter =
  p_name :: string
  p_kind :: kind
  p_annotation :: "annotation option"
  p_default :: "val option"

text \<open>The default of a model field: \<open>Required\<close> is the ellipsis \<open>...\<close>.\<close>

datatype field_default = Required | Default val

type_synonym fields = "(string \<times> annotation \<times> field_default) list"

type_synonym py_dict = "(string \<times> val) list"

datatype error =
    DecoratorSetupError
  | NotImplementedError
  | ValidationError
  | KeyError
  | TypeError
  | ValueError
  | Raised string

definition ALT_VAR_ARGS :: string where
  "ALT_VAR_ARGS = ''var__args''"

definition ALT_VAR_KWARGS :: string where
  "ALT_VAR_KWARGS = ''var__kwargs''"

section \<open>\<open>ValidatedFunction.__init__\<close>\<close>

text \<open>
  The attributes of a \<open>ValidatedFunction\<close>. \<open>underscore_args_field_name\<close> and
  \<open>underscore_kwargs_field_name\<close> are the attributes \<open>self._args_field_name\<close> and
  \<open>self._kwargs_field_name\<close> that the loop of \<open>__init__\<close> assigns (lines 76 and 81);
  \<open>None\<close> means the attribute was never set. \<open>model\<close> holds the fields of the model
  that \<open>create_model\<close> returns, \<open>self.model.__fields__\<close>. The wrapped callable
  \<open>self.raw_function\<close> is passed to \<open>execute\<close> and \<open>call\<close> as an argument.
\<close>

record validated_function =
  arg_mapping :: "nat \<rightharpoonup> string"
  args_field_name :: string
  kwargs_field_name :: string
  positional_only_args :: "string set"
  underscore_args_field_name :: "string option"
  underscore_kwargs_field_name :: "string option"
  model :: fields

text \<open>
  The state of the loop over the parameters: the object under construction,
  \<open>allows_var_args\<close>, \<open>allows_var_kwargs\<close> and \<open>fields\<close> (written \<open>flds\<close>).
\<close>

type_synonym init_state = "validated_function \<times> bool \<times> bool \<times> fields"

text \<open>The body of the loop (lines 59 to 83) for the parameter \<open>p\<close> at index \<open>i\<close>.\<close>

fun init_param :: "nat \<Rightarrow> parameter \<Rightarrow> init_state \<Rightarrow> init_state" where
  "init_param i p (vf, allows_var_args, allows_var_kwargs, flds) =
     (let annotation = (case p_annotation p of None \<Rightarrow> Any | Some a \<Rightarrow> a);
          dflt = (case p_default p of None \<Rightarrow> Required | Some d \<Rightarrow> Default d)
      in case p_kind p of
           POSITIONAL_ONLY \<Rightarrow>
             (vf\<lparr>arg_mapping := (arg_mapping vf)(i \<mapsto> p_name p),
                 positional_only_args := insert (p_name p) (positional_only_args vf)\<rparr>,
              allows_var_args, allows_var_kwargs,
              AList.update (p_name p) (annotation, dflt) flds)
         | POSITIONAL_OR_KEYWORD \<Rightarrow>
             (vf\<lparr>arg_mapping := (arg_mapping vf)(i \<mapsto> p_name p)\<rparr>,
              allows_var_args, allows_var_kwargs,
              AList.update (p_name p) (annotation, dflt) flds)
         | KEYWORD_ONLY \<Rightarrow>
             (vf, allows_var_args, allows_var_kwargs,
              AList.update (p_name p) (annotation, dflt) flds)
         | VAR_POSITIONAL \<Rightarrow>
             (vf\<lparr>underscore_args_field_name := Some (p_name p)\<rparr>,
              True, allows_var_kwargs,
              AList.update (p_name p) (TupleOf annotation, Default VNone) flds)
         | VAR_KEYWORD \<Rightarrow>
             (vf\<lparr>underscore_kwargs_field_name := Some (p_name p)\<rparr>,
              allows_var_args, True,
              AList.update (p_name p) (DictStrOf annotation, Default VNone) flds))"

text \<open>\<open>for i, (name, p) in enumerate(parameters.items())\<close>, from index \<open>i\<close> on.\<close>

fun init_loop :: "nat \<Rightarrow> parameter list \<Rightarrow> init_state \<Rightarrow> init_state" where
  "init_loop i [] s = s"
| "init_loop i (p # ps) s = init_loop (Suc i) ps (init_param i p s)"

text \<open>The object as lines 41 to 45 leave it, before the parameters are read.\<close>

definition init_start :: validated_function where
  "init_start =
     \<lparr>arg_mapping = Map.empty,
      args_field_name = ''args'',
      kwargs_field_name = ''kwargs'',
      positional_only_args = {},
      underscore_args_field_name = None,
      underscore_kwargs_field_name = None,
      model = []\<rparr>"

text \<open>
  The dict \<open>fields\<close> when the loop ends (line 83), which line 93 hands to
  \<open>create_model\<close>.
\<close>

definition declared_fields :: "parameter list \<Rightarrow> fields" where
  "declared_fields parameters =
     snd (snd (snd (init_loop 0 parameters (init_start, False, False, []))))"

text \<open>
  Modelled from the spec: \<open>create_model\<close> of \<open>pydantic/main.py\<close>, which is not among
  the sources at hand, as far as \<open>decorator.py\<close> reads its result, that is the fields
  \<open>self.model.__fields__\<close> of the model it builds. Section 4.3 of the spec: the validator
  accepts the ordered field declarations (name, type, default) and produces a model type.
  The fields of the model are taken to be these declarations, in their order. Whatever
  else the function does for particular names is not modelled: a statement below that
  needs a name to be a field of the model either assumes it or is about \<open>init\<close> as
  modelled here.
\<close>

definition create_model :: "fields \<Rightarrow> fields" where
  "create_model flds = flds"

text \<open>
  \<open>__init__\<close>, on the parameters of the wrapped callable in declaration order, with
  \<open>create_model\<close> as a parameter \<open>cm\<close>: given the field declarations it returns the
  fields of the model it builds, or raises. The name given to the model
  (\<open>to_camel(function.__name__)\<close>) plays no part afterwards and is left out.
\<close>

definition init_with :: "(fields \<Rightarrow> error + fields) \<Rightarrow> parameter list \<Rightarrow> error + validated_function" where
  "init_with cm parameters =
     (if set (map p_name parameters) \<inter> {ALT_VAR_ARGS, ALT_VAR_KWARGS} \<noteq> {}
      then Inl DecoratorSetupError
      else
        (case init_loop 0 parameters (init_start, False, False, []) of
           (vf, allows_var_args, allows_var_kwargs, flds) \<Rightarrow>
             (let vf1 = (if \<not> allows_var_args \<and> args_field_name vf \<in> set (map fst flds)
                         then vf\<lparr>args_field_name := ALT_VAR_ARGS\<rparr> else vf);
                  vf2 = (if \<not> allows_var_kwargs \<and> kwargs_field_name vf1 \<in> set (map fst flds)
                         then vf1\<lparr>kwargs_field_name := ALT_VAR_KWARGS\<rparr> else vf1)
              in case cm flds of
                   Inl e \<Rightarrow> Inl e
                 | Inr model_fields \<Rightarrow> Inr (vf2\<lparr>model := model_fields\<rparr>))))"

text \<open>\<open>__init__\<close> with \<open>create_model\<close> as the spec has it.\<close>

definition init :: "parameter list \<Rightarrow> error + validated_function" where
  "init parameters = init_with (\<lambda>flds. Inr (create_model flds)) parameters"

section \<open>\<open>ValidatedFunction.build_values\<close>\<close>

text \<open>
  The walk over the positional arguments (lines 104 to 117), at index \<open>i\<close> with the
  arguments still to come. It returns \<open>values\<close> and \<open>has_var_args\<close>.
\<close>

fun bind_args :: "validated_function \<Rightarrow> nat \<Rightarrow> val list \<Rightarrow> py_dict \<Rightarrow> py_dict \<times> bool" where
  "bind_args vf i [] values = (values, False)"
| "bind_args vf i (a # rest) values =
     (case arg_mapping vf i of
        Some arg_name \<Rightarrow> bind_args vf (Suc i) rest (AList.update arg_name a values)
      | None \<Rightarrow> (AList.update (args_field_name vf) (VList (a # rest)) values, True))"

text \<open>
  The loop over the keyword arguments (lines 120 to 126). It returns \<open>values\<close> and
  \<open>var_kwargs\<close>, or the \<open>NotImplementedError\<close> of line 123.
\<close>

fun bind_kwargs :: "validated_function \<Rightarrow> py_dict \<Rightarrow> py_dict \<Rightarrow> py_dict \<Rightarrow> error + (py_dict \<times> py_dict)" where
  "bind_kwargs vf [] values var_kwargs = Inr (values, var_kwargs)"
| "bind_kwargs vf ((k, v) # kwargs) values var_kwargs =
     (if k \<in> set (map fst (model vf)) then
        (if k \<in> positional_only_args vf then Inl NotImplementedError
         else bind_kwargs vf kwargs (AList.update k v values) var_kwargs)
      else bind_kwargs vf kwargs values (AList.update k v var_kwargs))"

definition build_values :: "validated_function \<Rightarrow> val list \<Rightarrow> py_dict \<Rightarrow> error + (py_dict \<times> bool \<times> bool)" where
  "build_values vf args kwargs =
     (case bind_args vf 0 args [] of
        (values, has_var_args) \<Rightarrow>
          (case bind_kwargs vf kwargs values [] of
             Inl e \<Rightarrow> Inl e
           | Inr (values1, var_kwargs) \<Rightarrow>
               (if var_kwargs \<noteq> []
                then Inr (AList.update (kwargs_field_name vf) (VDict var_kwargs) values1, has_var_args, True)
                else Inr (values1, has_var_args, False))))"

section \<open>The model instance\<close>

text \<open>
  A validated instance: \<open>m_iter\<close> is what \<open>m._iter()\<close> yields, \<open>fields_set\<close> is
  \<open>m.__fields_set__\<close>.
\<close>

record model_instance =
  m_iter :: py_dict
  fields_set :: "string set"

text \<open>
  Modelled from the spec: the validation of the fields by the model built with
  \<open>create_model\<close> (\<open>pydantic/main.py\<close> is not part of the sources at hand). Section 4.3:
  given a values mapping, the validator produces the effective value of every field, or
  fails with a \<open>ValidationError\<close>. The fields are visited in declaration order; a supplied
  value goes through the field's validator \<open>coerce\<close>, a parameter of the development
  (\<open>None\<close> when the value is rejected); a field that is not supplied takes its default,
  and fails when it is required.
\<close>

fun validate_fields :: "(annotation \<Rightarrow> val \<Rightarrow> val option) \<Rightarrow> fields \<Rightarrow> py_dict \<Rightarrow> error + py_dict" where
  "validate_fields coerce [] values = Inr []"
| "validate_fields coerce ((n, ann, dflt) # fs) values =
     (case map_of values n of
        Some v \<Rightarrow>
          (case coerce ann v of
             None \<Rightarrow> Inl ValidationError
           | Some w \<Rightarrow>
               (case validate_fields coerce fs values of
                  Inl e \<Rightarrow> Inl e
                | Inr d \<Rightarrow> Inr ((n, w) # d)))
      | None \<Rightarrow>
          (case dflt of
             Required \<Rightarrow> Inl ValidationError
           | Default w \<Rightarrow>
               (case validate_fields coerce fs values of
                  Inl e \<Rightarrow> Inl e
                | Inr d \<Rightarrow> Inr ((n, w) # d))))"

text \<open>
  Modelled from the spec: \<open>self.model(**values)\<close>. \<open>DecoratorModelConfig\<close> sets
  \<open>extra = Extra.forbid\<close> (line 30), so a key of \<open>values\<close> that is not a field fails
  validation. The fields explicitly supplied are the keys of \<open>values\<close>.
\<close>

definition model_call :: "(annotation \<Rightarrow> val \<Rightarrow> val option) \<Rightarrow> validated_function \<Rightarrow> py_dict \<Rightarrow> error + model_instance" where
  "model_call coerce vf values =
     (if \<not> list_all (\<lambda>k. k \<in> set (map fst (model vf))) (map fst values)
      then Inl ValidationError
      else
        (case validate_fields coerce (model vf) values of
           Inl e \<Rightarrow> Inl e
         | Inr d \<Rightarrow> Inr \<lparr>m_iter = d, fields_set = set (map fst values)\<rparr>))"

section \<open>\<open>ValidatedFunction.execute\<close>\<close>

text \<open>
  Line 133: \<open>d = {k: v for k, v in m._iter() if k in m.__fields_set__}\<close>, the values of
  the fields that were explicitly set.
\<close>

definition explicit_values :: "model_instance \<Rightarrow> py_dict" where
  "explicit_values m = filter (\<lambda>kv. fst kv \<in> fields_set m) (m_iter m)"

text \<open>
  In \<open>execute\<close> the dict \<open>d\<close> can come to hold keys that are not strings (through
  \<open>d.update\<close> below), so there it is an association list with values as keys.
\<close>

type_synonym key_dict = "(val \<times> val) list"

definition string_keys :: "py_dict \<Rightarrow> key_dict" where
  "string_keys d = map (\<lambda>kv. (VStr (fst kv), snd kv)) d"

text \<open>
  What iterating over a value yields (\<open>args_ += value\<close> of line 145, and the elements
  that \<open>d.update\<close> reads): the items of a sequence, the keys of a mapping, the characters
  of a string; other values are not iterable.
\<close>

fun iterate :: "val \<Rightarrow> val list option" where
  "iterate (VList xs) = Some xs"
| "iterate (VDict kvs) = Some (map (\<lambda>kv. VStr (fst kv)) kvs)"
| "iterate (VStr s) = Some (map (\<lambda>c. VStr [c]) s)"
| "iterate VNone = None"
| "iterate (VInt i) = None"

text \<open>Lists and dicts cannot be keys of a dict.\<close>

fun hashable :: "val \<Rightarrow> bool" where
  "hashable (VList xs) = False"
| "hashable (VDict kvs) = False"
| "hashable v = True"

text \<open>
  \<open>d.update(other)\<close> when \<open>other\<close> is not a mapping: every element of \<open>other\<close> must
  itself yield exactly a key and a value (\<open>ValueError\<close> otherwise, \<open>TypeError\<close> when it
  is not iterable or the key is not hashable).
\<close>

fun update_pairs :: "key_dict \<Rightarrow> val list \<Rightarrow> error + key_dict" where
  "update_pairs d [] = Inr d"
| "update_pairs d (x # xs) =
     (case iterate x of
        None \<Rightarrow> Inl TypeError
      | Some [k, v] \<Rightarrow>
          (if hashable k then update_pairs (AList.update k v d) xs else Inl TypeError)
      | Some ys \<Rightarrow> Inl ValueError)"

text \<open>\<open>d.update(other)\<close>: a mapping is merged key by key, any other value is read as pairs.\<close>

definition dict_update :: "key_dict \<Rightarrow> val \<Rightarrow> error + key_dict" where
  "dict_update d other =
     (case other of
        VDict kvs \<Rightarrow> Inr (fold (\<lambda>kv. AList.update (VStr (fst kv)) (snd kv)) kvs d)
      | _ \<Rightarrow>
          (case iterate other of
             None \<Rightarrow> Inl TypeError
           | Some xs \<Rightarrow> update_pairs d xs))"

text \<open>
  \<open>d.update(d.pop(self.kwargs_field_name))\<close> (line 135): \<open>pop\<close> raises \<open>KeyError\<close> when
  the key is absent, and removes the key before the update.
\<close>

definition pop_update :: "string \<Rightarrow> py_dict \<Rightarrow> error + key_dict" where
  "pop_update key d =
     (case map_of d key of
        None \<Rightarrow> Inl KeyError
      | Some other \<Rightarrow> dict_update (string_keys (AList.delete key d)) other)"

text \<open>
  The loop of lines 141 to 148 over \<open>d.items()\<close>, with \<open>args_\<close> (written \<open>args'\<close>),
  \<open>in_kwargs\<close> and \<open>kwargs\<close> as state.
\<close>

fun split_var_args :: "string \<Rightarrow> key_dict \<Rightarrow> val list \<Rightarrow> bool \<Rightarrow> key_dict \<Rightarrow> error + (val list \<times> key_dict)" where
  "split_var_args afn [] args' in_kwargs kwargs = Inr (args', kwargs)"
| "split_var_args afn ((n, v) # d) args' in_kwargs kwargs =
     (if in_kwargs then split_var_args afn d args' in_kwargs (AList.update n v kwargs)
      else if n = VStr afn then
        (case iterate v of
           None \<Rightarrow> Inl TypeError
         | Some xs \<Rightarrow> split_var_args afn d (args' @ xs) True kwargs)
      else split_var_args afn d (args' @ [v]) in_kwargs kwargs)"

text \<open>\<open>name in self.positional_only_args\<close>, a set of strings.\<close>

fun is_positional_only :: "string set \<Rightarrow> val \<Rightarrow> bool" where
  "is_positional_only po (VStr n) = (n \<in> po)"
| "is_positional_only po v = False"

text \<open>The loop of lines 153 to 157.\<close>

fun split_positional_only :: "string set \<Rightarrow> key_dict \<Rightarrow> val list \<Rightarrow> key_dict \<Rightarrow> val list \<times> key_dict" where
  "split_positional_only po [] args' kwargs = (args', kwargs)"
| "split_positional_only po ((n, v) # d) args' kwargs =
     (if is_positional_only po n then split_positional_only po d (args' @ [v]) kwargs
      else split_positional_only po d args' (AList.update n v kwargs))"

text \<open>
  The unpacking \<open>**kwargs\<close> in a call: every key must be a string, or the call raises
  \<open>TypeError\<close> before the callable is entered.
\<close>

fun star_kwargs :: "key_dict \<Rightarrow> error + py_dict" where
  "star_kwargs [] = Inr []"
| "star_kwargs ((VStr k, v) # d) =
     (case star_kwargs d of Inl e \<Rightarrow> Inl e | Inr kw \<Rightarrow> Inr ((k, v) # kw))"
| "star_kwargs ((n, v) # d) = Inl TypeError"

text \<open>
  The arguments that \<open>execute\<close> hands to \<open>self.raw_function\<close>: the positional list and
  the keyword dictionary of the call \<open>self.raw_function(*args_, **kwargs)\<close> (of
  \<open>self.raw_function(**d)\<close> in the last branch), or the error raised before the callable
  is entered.
\<close>

definition reconstruct :: "validated_function \<Rightarrow> model_instance \<Rightarrow> bool \<Rightarrow> bool \<Rightarrow> error + (val list \<times> py_dict)" where
  "reconstruct vf m has_var_args has_var_kwargs =
     (let d0 = explicit_values m in
      case (if has_var_kwargs then pop_update (kwargs_field_name vf) d0 else Inr (string_keys d0)) of
        Inl e \<Rightarrow> Inl e
      | Inr d \<Rightarrow>
          (case (if has_var_args then split_var_args (args_field_name vf) d [] False []
                 else if positional_only_args vf \<noteq> {}
                   then Inr (split_positional_only (positional_only_args vf) d [] [])
                 else Inr ([], d)) of
             Inl e \<Rightarrow> Inl e
           | Inr (args', kwargs) \<Rightarrow>
               (case star_kwargs kwargs of
                  Inl e \<Rightarrow> Inl e
                | Inr kw \<Rightarrow> Inr (args', kw))))"

text \<open>\<open>execute\<close>: the wrapped callable is invoked on the reconstructed arguments.\<close>

definition execute :: "validated_function \<Rightarrow> (val list \<Rightarrow> py_dict \<Rightarrow> error + 'r) \<Rightarrow> model_instance \<Rightarrow> bool \<Rightarrow> bool \<Rightarrow> error + 'r" where
  "execute vf raw_function m has_var_args has_var_kwargs =
     (case reconstruct vf m has_var_args has_var_kwargs of
        Inl e \<Rightarrow> Inl e
      | Inr (args', kwargs) \<Rightarrow> raw_function args' kwargs)"

section \<open>\<open>ValidatedFunction.__call__\<close>\<close>

text \<open>
  \<open>def __call__(self, *args, **kwargs)\<close> (line 95). The first parameter is the wrapper
  itself, so a keyword argument named \<open>self\<close> collides with it: Python raises
  \<open>TypeError\<close> before the body runs. Every other keyword goes to \<open>kwargs\<close>.
\<close>

definition call :: "validated_function \<Rightarrow> (annotation \<Rightarrow> val \<Rightarrow> val option) \<Rightarrow> (val list \<Rightarrow> py_dict \<Rightarrow> error + 'r) \<Rightarrow> val list \<Rightarrow> py_dict \<Rightarrow> error + 'r" where
  "call vf coerce raw_function args kwargs =
     (if ''self'' \<in> set (map fst kwargs) then Inl TypeError
      else
        (case build_values vf args kwargs of
           Inl e \<Rightarrow> Inl e
         | Inr (values, has_var_args, has_var_kwargs) \<Rightarrow>
             (case model_call coerce vf values of
                Inl e \<Rightarrow> Inl e
              | Inr m \<Rightarrow> execute vf raw_function m has_var_args has_var_kwargs)))"

text \<open>
  The invocation of the wrapped callable that a call of the wrapper leads to, if any:
  \<open>call\<close> with the callable replaced by a recorder of its arguments.
\<close>

definition invocation :: "validated_function \<Rightarrow> (annotation \<Rightarrow> val \<Rightarrow> val option) \<Rightarrow> val list \<Rightarrow> py_dict \<Rightarrow> error + (val list \<times> py_dict)" where
  "invocation vf coerce args kwargs = call vf coerce (\<lambda>a k. Inr (a, k)) args kwargs"

text \<open>\<open>validate_arguments(function)(*args, **kwargs)\<close>: wrap, then call.\<close>

definition validate_arguments :: "parameter list \<Rightarrow> (annotation \<Rightarrow> val \<Rightarrow> val option) \<Rightarrow> (val list \<Rightarrow> py_dict \<Rightarrow> error + 'r) \<Rightarrow> val list \<Rightarrow> py_dict \<Rightarrow> error + 'r" where
  "validate_arguments parameters coerce raw_function args kwargs =
     (case init parameters of
        Inl e \<Rightarrow> Inl e
      | Inr vf \<Rightarrow> call vf coerce raw_function args kwargs)"

section \<open>Direct calls\<close>

text \<open>
  To compare a call through the wrapper with a direct call, the wrapped callable is taken
  to be a Python function: a parameter list and a body that reads the bound parameters.
  The definitions of this section are the argument binding of the Python language (they
  are not part of \<open>decorator.py\<close>): positional arguments fill the positional parameters
  in order and the surplus goes to the \<open>*\<close> parameter; a keyword argument fills the
  parameter of that name unless that parameter is positional-only or already bound, and
  otherwise goes to the \<open>**\<close> parameter; a parameter left unbound takes its default;
  everything else is a \<open>TypeError\<close>.
\<close>

definition positional :: "parameter \<Rightarrow> bool" where
  "positional p = (p_kind p = POSITIONAL_ONLY \<or> p_kind p = POSITIONAL_OR_KEYWORD)"

definition keyword_names :: "parameter list \<Rightarrow> string list" where
  "keyword_names ps =
     map p_name (filter (\<lambda>p. p_kind p = POSITIONAL_OR_KEYWORD \<or> p_kind p = KEYWORD_ONLY) ps)"

fun py_keywords :: "parameter list \<Rightarrow> py_dict \<Rightarrow> py_dict \<Rightarrow> py_dict \<Rightarrow> error + (py_dict \<times> py_dict)" where
  "py_keywords ps [] bound extra = Inr (bound, extra)"
| "py_keywords ps ((k, v) # kwargs) bound extra =
     (if k \<in> set (keyword_names ps) then
        (if k \<in> set (map fst bound) then Inl TypeError
         else py_keywords ps kwargs (bound @ [(k, v)]) extra)
      else if VAR_KEYWORD \<in> set (map p_kind ps) then py_keywords ps kwargs bound (extra @ [(k, v)])
      else Inl TypeError)"

fun py_env :: "parameter list \<Rightarrow> (string \<rightharpoonup> val) \<Rightarrow> val list \<Rightarrow> py_dict \<Rightarrow> error + py_dict" where
  "py_env [] bound extra extra_kw = Inr []"
| "py_env (p # ps) bound extra extra_kw =
     (case (case p_kind p of
              VAR_POSITIONAL \<Rightarrow> Some (VList extra)
            | VAR_KEYWORD \<Rightarrow> Some (VDict extra_kw)
            | _ \<Rightarrow> (case bound (p_name p) of Some v \<Rightarrow> Some v | None \<Rightarrow> p_default p)) of
        None \<Rightarrow> Inl TypeError
      | Some v \<Rightarrow>
          (case py_env ps bound extra extra_kw of
             Inl e \<Rightarrow> Inl e
           | Inr env \<Rightarrow> Inr ((p_name p, v) # env)))"

definition py_bind :: "parameter list \<Rightarrow> val list \<Rightarrow> py_dict \<Rightarrow> error + py_dict" where
  "py_bind ps args kwargs =
     (let names = map p_name (filter positional ps);
          extra = drop (length names) args
      in if extra \<noteq> [] \<and> VAR_POSITIONAL \<notin> set (map p_kind ps) then Inl TypeError
         else
           (case py_keywords ps kwargs (zip names args) [] of
              Inl e \<Rightarrow> Inl e
            | Inr (bound, extra_kw) \<Rightarrow> py_env ps (map_of bound) extra extra_kw))"

text \<open>The direct call \<open>f(*args, **kwargs)\<close> of a function with parameters \<open>ps\<close>.\<close>

definition py_call :: "parameter list \<Rightarrow> (py_dict \<Rightarrow> error + 'r) \<Rightarrow> val list \<Rightarrow> py_dict \<Rightarrow> error + 'r" where
  "py_call ps body args kwargs =
     (case py_bind ps args kwargs of Inl e \<Rightarrow> Inl e | Inr env \<Rightarrow> body env)"

text \<open>
  The arguments of a call pass validation unchanged: binding and validation succeed, and
  every bound value is the value of its field in the validated instance.
\<close>

definition passes_unchanged :: "validated_function \<Rightarrow> (annotation \<Rightarrow> val \<Rightarrow> val option) \<Rightarrow> val list \<Rightarrow> py_dict \<Rightarrow> bool" where
  "passes_unchanged vf coerce args kwargs =
     (case build_values vf args kwargs of
        Inl e \<Rightarrow> False
      | Inr (values, has_var_args, has_var_kwargs) \<Rightarrow>
          (case model_call coerce vf values of
             Inl e \<Rightarrow> False
           | Inr m \<Rightarrow> list_all (\<lambda>kv. map_of (m_iter m) (fst kv) = Some (snd kv)) values))"

text \<open>The same for a callable given by its parameters: wrapping succeeds as well.\<close>

definition valid_call :: "parameter list \<Rightarrow> (annotation \<Rightarrow> val \<Rightarrow> val option) \<Rightarrow> val list \<Rightarrow> py_dict \<Rightarrow> bool" where
  "valid_call ps coerce args kwargs =
     (case init ps of
        Inl e \<Rightarrow> False
      | Inr vf \<Rightarrow> passes_unchanged vf coerce args kwargs)"

section \<open>Callables and collaborators used as examples\<close>

text \<open>A validator that accepts every value as it is, and a callable that returns its arguments.\<close>

definition accept_all :: "annotation \<Rightarrow> val \<Rightarrow> val option" where
  "accept_all ann v = Some v"

definition record_call :: "val list \<Rightarrow> py_dict \<Rightarrow> error + (val list \<times> py_dict)" where
  "record_call a k = Inr (a, k)"

definition param :: "string \<Rightarrow> kind \<Rightarrow> val option \<Rightarrow> parameter" where
  "param n k d = \<lparr>p_name = n, p_kind = k, p_annotation = None, p_default = d\<rparr>"

text \<open>\<open>def f(a, b=2, *rest, **kw)\<close>\<close>

definition f_a_b_rest_kw :: "parameter list" where
  "f_a_b_rest_kw =
     [param ''a'' POSITIONAL_OR_KEYWORD None, param ''b'' POSITIONAL_OR_KEYWORD (Some (VInt 2)),
      param ''rest'' VAR_POSITIONAL None, param ''kw'' VAR_KEYWORD None]"

text \<open>\<open>def f(a, b=2, *args, **kwargs)\<close>\<close>

definition f_a_b_args_kwargs :: "parameter list" where
  "f_a_b_args_kwargs =
     [param ''a'' POSITIONAL_OR_KEYWORD None, param ''b'' POSITIONAL_OR_KEYWORD (Some (VInt 2)),
      param ''args'' VAR_POSITIONAL None, param ''kwargs'' VAR_KEYWORD None]"

text \<open>\<open>def f(args=1)\<close>\<close>

definition f_args :: "parameter list" where
  "f_args = [param ''args'' POSITIONAL_OR_KEYWORD (Some (VInt 1))]"

text \<open>\<open>def f(a, /, b)\<close>\<close>

definition f_a_slash_b :: "parameter list" where
  "f_a_slash_b = [param ''a'' POSITIONAL_ONLY None, param ''b'' POSITIONAL_OR_KEYWORD None]"

text \<open>\<open>def f(a)\<close>\<close>

definition f_a :: "parameter list" where
  "f_a = [param ''a'' POSITIONAL_OR_KEYWORD None]"

text \<open>\<open>def f(a, b=2)\<close>\<close>

definition f_a_b :: "parameter list" where
  "f_a_b = [param ''a'' POSITIONAL_OR_KEYWORD None, param ''b'' POSITIONAL_OR_KEYWORD (Some (VInt 2))]"

text \<open>\<open>def f(*rest, args=1)\<close>\<close>

definition f_rest_args :: "parameter list" where
  "f_rest_args = [param ''rest'' VAR_POSITIONAL None, param ''args'' KEYWORD_ONLY (Some (VInt 1))]"

text \<open>A wrapped callable that raises whatever it is given.\<close>

definition raising :: "val list \<Rightarrow> py_dict \<Rightarrow> error + val" where
  "raising a k = Inl (Raised ''boom'')"

text \<open>A function body that returns its bound parameters.\<close>

definition return_env :: "py_dict \<Rightarrow> error + py_dict" where
  "return_env env = Inr env"

text \<open>\<open>def f(self)\<close>\<close>

definition f_self :: "parameter list" where
  "f_self = [param ''self'' POSITIONAL_OR_KEYWORD None]"

text \<open>\<open>def f(kwargs, **kw)\<close>\<close>

definition f_kwargs_kw :: "parameter list" where
  "f_kwargs_kw = [param ''kwargs'' POSITIONAL_OR_KEYWORD None, param ''kw'' VAR_KEYWORD None]"


text \<open>
  Both overflow labels are fields of the model:
  \<open>self.args_field_name in self.model.__fields__\<close> and the same for
  \<open>self.kwargs_field_name\<close>.
\<close>

definition overflow_fields_declared :: "validated_function \<Rightarrow> bool" where
  "overflow_fields_declared vf =
     (args_field_name vf \<in> set (map fst (model vf)) \<and> kwargs_field_name vf \<in> set (map fst (model vf)))"

section \<open>The fields that \<open>__init__\<close> declares\<close>

text \<open>The annotation and default that the loop of \<open>__init__\<close> stores for a parameter.\<close>

definition field_of :: "parameter \<Rightarrow> annotation \<times> field_default" where
  "field_of p =
     (let annotation = (case p_annotation p of None \<Rightarrow> Any | Some a \<Rightarrow> a);
          dflt = (case p_default p of None \<Rightarrow> Required | Some d \<Rightarrow> Default d)
      in case p_kind p of
           VAR_POSITIONAL \<Rightarrow> (TupleOf annotation, Default VNone)
         | VAR_KEYWORD \<Rightarrow> (DictStrOf annotation, Default VNone)
         | _ \<Rightarrow> (annotation, dflt))"

section \<open>Properties of \<open>__init__\<close>\<close>

lemma init_param_flds:
  "snd (snd (snd (init_param i p s))) = AList.update (p_name p) (field_of p) (snd (snd (snd s)))"
  by (cases s; cases "p_kind p") (simp_all add: Let_def field_of_def)

lemma init_param_allows_var_args:
  "fst (snd (init_param i p s)) = (fst (snd s) \<or> p_kind p = VAR_POSITIONAL)"
  by (cases s; cases "p_kind p") (simp_all add: Let_def)

lemma init_param_allows_var_kwargs:
  "fst (snd (snd (init_param i p s))) = (fst (snd (snd s)) \<or> p_kind p = VAR_KEYWORD)"
  by (cases s; cases "p_kind p") (simp_all add: Let_def)

lemma init_param_names:
  "args_field_name (fst (init_param i p s)) = args_field_name (fst s)"
  "kwargs_field_name (fst (init_param i p s)) = kwargs_field_name (fst s)"
  by (cases s; cases "p_kind p"; simp add: Let_def)+

lemma init_param_positional_only:
  "positional_only_args (fst (init_param i p s)) =
     (if p_kind p = POSITIONAL_ONLY then insert (p_name p) (positional_only_args (fst s))
      else positional_only_args (fst s))"
  by (cases s; cases "p_kind p") (simp_all add: Let_def)

lemma init_param_arg_mapping:
  "arg_mapping (fst (init_param i p s)) =
     (if positional p then (arg_mapping (fst s))(i \<mapsto> p_name p) else arg_mapping (fst s))"
  by (cases s; cases "p_kind p") (simp_all add: Let_def positional_def)

lemma init_loop_flds:
  "snd (snd (snd (init_loop i ps s))) =
     fold (\<lambda>p. AList.update (p_name p) (field_of p)) ps (snd (snd (snd s)))"
  by (induction ps arbitrary: i s) (simp_all add: init_param_flds)

lemma init_loop_allows_var_args:
  "fst (snd (init_loop i ps s)) = (fst (snd s) \<or> VAR_POSITIONAL \<in> p_kind ` set ps)"
  by (induction ps arbitrary: i s) (auto simp: init_param_allows_var_args)

lemma init_loop_allows_var_kwargs:
  "fst (snd (snd (init_loop i ps s))) = (fst (snd (snd s)) \<or> VAR_KEYWORD \<in> p_kind ` set ps)"
  by (induction ps arbitrary: i s) (auto simp: init_param_allows_var_kwargs)

lemma init_loop_names:
  "args_field_name (fst (init_loop i ps s)) = args_field_name (fst s)"
  "kwargs_field_name (fst (init_loop i ps s)) = kwargs_field_name (fst s)"
  by (induction ps arbitrary: i s; simp add: init_param_names)+

lemma init_loop_positional_only:
  "positional_only_args (fst (init_loop i ps s)) =
     positional_only_args (fst s) \<union> p_name ` {p \<in> set ps. p_kind p = POSITIONAL_ONLY}"
  by (induction ps arbitrary: i s) (auto simp: init_param_positional_only)

lemma init_loop_arg_mapping:
  "arg_mapping (fst (init_loop i ps s)) j =
     (if i \<le> j \<and> j < i + length ps \<and> positional (ps ! (j - i)) then Some (p_name (ps ! (j - i)))
      else arg_mapping (fst s) j)"
proof (induction ps arbitrary: i s)
  case Nil
  then show ?case by auto
next
  case (Cons p ps)
  show ?case
  proof (cases "i = j")
    case True
    show ?thesis unfolding True by (simp add: Cons.IH init_param_arg_mapping)
  next
    case False
    show ?thesis
    proof (cases "i < j")
      case True
      then have e: "j - i = Suc (j - Suc i)" by simp
      from True show ?thesis
        by (simp add: Cons.IH init_param_arg_mapping e)
    next
      case False
      with \<open>i \<noteq> j\<close> show ?thesis
        by (simp add: Cons.IH init_param_arg_mapping)
    qed
  qed
qed

lemma fold_update_keys:
  "set (map fst (fold (\<lambda>p. AList.update (p_name p) (f p)) ps fl)) = set (map fst fl) \<union> p_name ` set ps"
  by (induction ps arbitrary: fl) (auto simp: AList.dom_update)

lemma update_fresh: "k \<notin> set (map fst al) \<Longrightarrow> AList.update k v al = al @ [(k, v)]"
  by (induction al) auto

lemma fold_update_distinct:
  "distinct (map p_name ps) \<Longrightarrow> set (map fst fl) \<inter> p_name ` set ps = {} \<Longrightarrow>
     fold (\<lambda>p. AList.update (p_name p) (f p)) ps fl = fl @ map (\<lambda>p. (p_name p, f p)) ps"
proof (induction ps arbitrary: fl)
  case Nil
  then show ?case by simp
next
  case (Cons p ps)
  have fresh: "p_name p \<notin> set (map fst fl)" using Cons.prems(2) by auto
  have "set (map fst (fl @ [(p_name p, f p)])) \<inter> p_name ` set ps = {}"
    using Cons.prems by auto
  with Cons.IH [of "fl @ [(p_name p, f p)]"] Cons.prems(1) fresh show ?case
    by (simp add: update_fresh)
qed


lemma init_Inr_iff:
  "(\<exists>vf. init ps = Inr vf) \<longleftrightarrow> ALT_VAR_ARGS \<notin> p_name ` set ps \<and> ALT_VAR_KWARGS \<notin> p_name ` set ps"
  by (auto simp: init_def init_with_def create_model_def Let_def split: prod.splits)

lemma init_model:
  assumes "init ps = Inr vf"
  shows "model vf = fold (\<lambda>p. AList.update (p_name p) (field_of p)) ps []"
proof -
  obtain vf0 a k fl where l: "init_loop 0 ps (init_start, False, False, []) = (vf0, a, k, fl)"
    by (metis prod_cases4)
  from assms l have "model vf = fl"
    by (auto simp: init_def init_with_def create_model_def Let_def split: if_splits)
  moreover from init_loop_flds [of 0 ps "(init_start, False, False, [])"] l
  have "fl = fold (\<lambda>p. AList.update (p_name p) (field_of p)) ps []" by simp
  ultimately show ?thesis by simp
qed

lemma init_model_keys: "init ps = Inr vf \<Longrightarrow> set (map fst (model vf)) = p_name ` set ps"
  by (simp only: init_model fold_update_keys) simp

lemma init_model_distinct:
  "init ps = Inr vf \<Longrightarrow> distinct (map p_name ps) \<Longrightarrow>
     model vf = map (\<lambda>p. (p_name p, field_of p)) ps"
  by (simp add: init_model fold_update_distinct)

lemma init_positional_only:
  assumes "init ps = Inr vf"
  shows "positional_only_args vf = p_name ` {p \<in> set ps. p_kind p = POSITIONAL_ONLY}"
proof -
  obtain vf0 a k fl where l: "init_loop 0 ps (init_start, False, False, []) = (vf0, a, k, fl)"
    by (metis prod_cases4)
  from assms l have "positional_only_args vf = positional_only_args vf0"
    by (auto simp: init_def init_with_def create_model_def Let_def split: if_splits)
  moreover from init_loop_positional_only [of 0 ps "(init_start, False, False, [])"] l
  have "positional_only_args vf0 = p_name ` {p \<in> set ps. p_kind p = POSITIONAL_ONLY}"
    by (simp add: init_start_def)
  ultimately show ?thesis by simp
qed

lemma init_arg_mapping:
  assumes "init ps = Inr vf"
  shows "arg_mapping vf j =
     (if j < length ps \<and> positional (ps ! j) then Some (p_name (ps ! j)) else None)"
proof -
  obtain vf0 a k fl where l: "init_loop 0 ps (init_start, False, False, []) = (vf0, a, k, fl)"
    by (metis prod_cases4)
  from assms l have "arg_mapping vf = arg_mapping vf0"
    by (auto simp: init_def init_with_def create_model_def Let_def split: if_splits)
  moreover from init_loop_arg_mapping [of 0 ps "(init_start, False, False, [])" j] l
  have "arg_mapping vf0 j =
     (if j < length ps \<and> positional (ps ! j) then Some (p_name (ps ! j)) else None)"
    by (simp add: init_start_def)
  ultimately show ?thesis by simp
qed

lemma init_args_field_name:
  assumes "init ps = Inr vf"
  shows "args_field_name vf =
     (if VAR_POSITIONAL \<notin> p_kind ` set ps \<and> ''args'' \<in> p_name ` set ps then ALT_VAR_ARGS else ''args'')"
proof -
  obtain vf0 a k fl where l: "init_loop 0 ps (init_start, False, False, []) = (vf0, a, k, fl)"
    by (metis prod_cases4)
  from init_loop_names(1) [of 0 ps "(init_start, False, False, [])"] l
  have n: "args_field_name vf0 = ''args''" by (simp add: init_start_def)
  from init_loop_allows_var_args [of 0 ps "(init_start, False, False, [])"] l
  have a: "a = (VAR_POSITIONAL \<in> p_kind ` set ps)" by simp
  from init_loop_flds [of 0 ps "(init_start, False, False, [])"] l
  have f: "set (map fst fl) = p_name ` set ps" by (simp only: fold_update_keys snd_conv) simp
  from assms l n a f show ?thesis
    by (auto simp: init_def init_with_def create_model_def Let_def split: if_splits)
qed

lemma init_kwargs_field_name:
  assumes "init ps = Inr vf"
  shows "kwargs_field_name vf =
     (if VAR_KEYWORD \<notin> p_kind ` set ps \<and> ''kwargs'' \<in> p_name ` set ps then ALT_VAR_KWARGS else ''kwargs'')"
proof -
  obtain vf0 a k fl where l: "init_loop 0 ps (init_start, False, False, []) = (vf0, a, k, fl)"
    by (metis prod_cases4)
  from init_loop_names(2) [of 0 ps "(init_start, False, False, [])"] l
  have n: "kwargs_field_name vf0 = ''kwargs''" by (simp add: init_start_def)
  from init_loop_allows_var_kwargs [of 0 ps "(init_start, False, False, [])"] l
  have a: "k = (VAR_KEYWORD \<in> p_kind ` set ps)" by simp
  from init_loop_flds [of 0 ps "(init_start, False, False, [])"] l
  have f: "set (map fst fl) = p_name ` set ps" by (simp only: fold_update_keys snd_conv) simp
  from assms l n a f show ?thesis
    by (auto simp: init_def init_with_def create_model_def Let_def split: if_splits)
qed

text \<open>
  Whatever \<open>create_model\<close> returns, the other attributes are those that \<open>init\<close> sets,
  and \<open>create_model\<close> was given the declared fields.
\<close>

lemma init_with_init:
  assumes "init_with cm ps = Inr vf"
  shows "\<exists>vf'. init ps = Inr vf' \<and> vf = vf'\<lparr>model := model vf\<rparr>
           \<and> cm (declared_fields ps) = Inr (model vf)"
proof -
  obtain vf0 a k fl where l: "init_loop 0 ps (init_start, False, False, []) = (vf0, a, k, fl)"
    by (metis prod_cases4)
  then have d: "declared_fields ps = fl" by (simp add: declared_fields_def)
  from assms l show ?thesis unfolding d
    by (auto simp: init_def init_with_def create_model_def Let_def split: if_splits sum.splits)
qed

lemma init_with_attributes:
  assumes "init_with cm ps = Inr vf"
  shows "ALT_VAR_ARGS \<notin> set (map p_name ps)" and "ALT_VAR_KWARGS \<notin> set (map p_name ps)"
    and "positional_only_args vf = p_name ` {p \<in> set ps. p_kind p = POSITIONAL_ONLY}"
    and "arg_mapping vf j =
       (if j < length ps \<and> positional (ps ! j) then Some (p_name (ps ! j)) else None)"
    and "args_field_name vf =
       (if VAR_POSITIONAL \<notin> p_kind ` set ps \<and> ''args'' \<in> p_name ` set ps then ALT_VAR_ARGS else ''args'')"
    and "kwargs_field_name vf =
       (if VAR_KEYWORD \<notin> p_kind ` set ps \<and> ''kwargs'' \<in> p_name ` set ps then ALT_VAR_KWARGS else ''kwargs'')"
proof -
  from init_with_init [OF assms] obtain vf' where i: "init ps = Inr vf'"
    and v: "vf = vf'\<lparr>model := model vf\<rparr>" by blast
  from i init_Inr_iff [of ps]
  show "ALT_VAR_ARGS \<notin> set (map p_name ps)" and "ALT_VAR_KWARGS \<notin> set (map p_name ps)"
    by auto
  from v have e: "positional_only_args vf = positional_only_args vf'"
    "arg_mapping vf = arg_mapping vf'" "args_field_name vf = args_field_name vf'"
    "kwargs_field_name vf = kwargs_field_name vf'"
    by (metis validated_function.select_convs validated_function.surjective
        validated_function.update_convs)+
  show "positional_only_args vf = p_name ` {p \<in> set ps. p_kind p = POSITIONAL_ONLY}"
    unfolding e by (rule init_positional_only [OF i])
  show "arg_mapping vf j =
       (if j < length ps \<and> positional (ps ! j) then Some (p_name (ps ! j)) else None)"
    unfolding e by (rule init_arg_mapping [OF i])
  show "args_field_name vf =
       (if VAR_POSITIONAL \<notin> p_kind ` set ps \<and> ''args'' \<in> p_name ` set ps then ALT_VAR_ARGS else ''args'')"
    unfolding e by (rule init_args_field_name [OF i])
  show "kwargs_field_name vf =
       (if VAR_KEYWORD \<notin> p_kind ` set ps \<and> ''kwargs'' \<in> p_name ` set ps then ALT_VAR_KWARGS else ''kwargs'')"
    unfolding e by (rule init_kwargs_field_name [OF i])
qed

text \<open>An overflow label of a callable without the variadic is not a declared name.\<close>

lemma init_with_args_label:
  assumes "init_with cm ps = Inr vf" and "VAR_POSITIONAL \<notin> set (map p_kind ps)"
  shows "args_field_name vf = (if ''args'' \<in> set (map p_name ps) then ALT_VAR_ARGS else ''args'')"
    and "args_field_name vf \<notin> set (map p_name ps)"
proof -
  from assms init_with_attributes(5) [OF assms(1)]
  show n: "args_field_name vf = (if ''args'' \<in> set (map p_name ps) then ALT_VAR_ARGS else ''args'')"
    by simp
  with init_with_attributes(1) [OF assms(1)] show "args_field_name vf \<notin> set (map p_name ps)"
    by (auto split: if_splits)
qed

lemma init_with_kwargs_label:
  assumes "init_with cm ps = Inr vf" and "VAR_KEYWORD \<notin> set (map p_kind ps)"
  shows "kwargs_field_name vf = (if ''kwargs'' \<in> set (map p_name ps) then ALT_VAR_KWARGS else ''kwargs'')"
    and "kwargs_field_name vf \<notin> set (map p_name ps)"
proof -
  from assms init_with_attributes(6) [OF assms(1)]
  show n: "kwargs_field_name vf = (if ''kwargs'' \<in> set (map p_name ps) then ALT_VAR_KWARGS else ''kwargs'')"
    by simp
  with init_with_attributes(2) [OF assms(1)] show "kwargs_field_name vf \<notin> set (map p_name ps)"
    by (auto split: if_splits)
qed

section \<open>Evaluating \<open>__init__\<close> on the examples\<close>

lemma init_f_a:
  "init f_a =
     Inr \<lparr>arg_mapping = [0 \<mapsto> ''a''], args_field_name = ''args'', kwargs_field_name = ''kwargs'',
          positional_only_args = {}, underscore_args_field_name = None,
          underscore_kwargs_field_name = None, model = [(''a'', Any, Required)]\<rparr>"
  by (simp add: init_def init_with_def create_model_def f_a_def param_def init_start_def Let_def ALT_VAR_ARGS_def ALT_VAR_KWARGS_def)

lemma init_f_args:
  "init f_args =
     Inr \<lparr>arg_mapping = [0 \<mapsto> ''args''], args_field_name = ''var__args'',
          kwargs_field_name = ''kwargs'', positional_only_args = {},
          underscore_args_field_name = None, underscore_kwargs_field_name = None,
          model = [(''args'', Any, Default (VInt 1))]\<rparr>"
  by (simp add: init_def init_with_def create_model_def f_args_def param_def init_start_def Let_def ALT_VAR_ARGS_def ALT_VAR_KWARGS_def)

lemma init_f_a_b_rest_kw:
  "init f_a_b_rest_kw =
     Inr \<lparr>arg_mapping = [0 \<mapsto> ''a'', Suc 0 \<mapsto> ''b''], args_field_name = ''args'',
          kwargs_field_name = ''kwargs'', positional_only_args = {},
          underscore_args_field_name = Some ''rest'', underscore_kwargs_field_name = Some ''kw'',
          model = [(''a'', Any, Required), (''b'', Any, Default (VInt 2)),
                   (''rest'', TupleOf Any, Default VNone), (''kw'', DictStrOf Any, Default VNone)]\<rparr>"
  by (simp add: init_def init_with_def create_model_def f_a_b_rest_kw_def param_def init_start_def Let_def ALT_VAR_ARGS_def ALT_VAR_KWARGS_def)

lemma init_f_a_slash_b:
  "init f_a_slash_b =
     Inr \<lparr>arg_mapping = [0 \<mapsto> ''a'', Suc 0 \<mapsto> ''b''], args_field_name = ''args'',
          kwargs_field_name = ''kwargs'', positional_only_args = {''a''},
          underscore_args_field_name = None, underscore_kwargs_field_name = None,
          model = [(''a'', Any, Required), (''b'', Any, Required)]\<rparr>"
  by (simp add: init_def init_with_def create_model_def f_a_slash_b_def param_def init_start_def Let_def ALT_VAR_ARGS_def ALT_VAR_KWARGS_def)

lemma init_f_rest_args:
  "init f_rest_args =
     Inr \<lparr>arg_mapping = Map.empty, args_field_name = ''args'',
          kwargs_field_name = ''kwargs'', positional_only_args = {},
          underscore_args_field_name = Some ''rest'', underscore_kwargs_field_name = None,
          model = [(''rest'', TupleOf Any, Default VNone), (''args'', Any, Default (VInt 1))]\<rparr>"
  by (simp add: init_def init_with_def create_model_def f_rest_args_def param_def init_start_def Let_def ALT_VAR_ARGS_def ALT_VAR_KWARGS_def)

lemma init_f_a_b:
  "init f_a_b =
     Inr \<lparr>arg_mapping = [0 \<mapsto> ''a'', Suc 0 \<mapsto> ''b''], args_field_name = ''args'',
          kwargs_field_name = ''kwargs'', positional_only_args = {},
          underscore_args_field_name = None, underscore_kwargs_field_name = None,
          model = [(''a'', Any, Required), (''b'', Any, Default (VInt 2))]\<rparr>"
  by (simp add: init_def init_with_def create_model_def f_a_b_def param_def init_start_def Let_def ALT_VAR_ARGS_def ALT_VAR_KWARGS_def)

lemma init_f_a_b_args_kwargs:
  "init f_a_b_args_kwargs =
     Inr \<lparr>arg_mapping = [0 \<mapsto> ''a'', Suc 0 \<mapsto> ''b''], args_field_name = ''args'',
          kwargs_field_name = ''kwargs'', positional_only_args = {},
          underscore_args_field_name = Some ''args'', underscore_kwargs_field_name = Some ''kwargs'',
          model = [(''a'', Any, Required), (''b'', Any, Default (VInt 2)),
                   (''args'', TupleOf Any, Default VNone), (''kwargs'', DictStrOf Any, Default VNone)]\<rparr>"
  by (simp add: init_def init_with_def create_model_def f_a_b_args_kwargs_def param_def init_start_def Let_def ALT_VAR_ARGS_def ALT_VAR_KWARGS_def)

text \<open>
  When the variadic parameters are named \<open>args\<close> and \<open>kwargs\<close>, the labels that
  \<open>build_values\<close> and \<open>execute\<close> use are fields of the model, and the overflow is
  carried: \<open>wrap(f)(1, 2, 3, x=4)\<close> invokes \<open>f(1, 2, 3, x=4)\<close>.
\<close>

lemma variadics_named_args_kwargs:
  "validate_arguments f_a_b_args_kwargs accept_all record_call [VInt 1, VInt 2, VInt 3] [(''x'', VInt 4)]
     = Inr ([VInt 1, VInt 2, VInt 3], [(''x'', VInt 4)])"
  by (simp add: validate_arguments_def init_f_a_b_args_kwargs call_def build_values_def
      model_call_def accept_all_def execute_def reconstruct_def string_keys_def dict_update_def explicit_values_def
      pop_update_def record_call_def)

lemma init_f_self:
  "init f_self =
     Inr \<lparr>arg_mapping = [0 \<mapsto> ''self''], args_field_name = ''args'', kwargs_field_name = ''kwargs'',
          positional_only_args = {}, underscore_args_field_name = None,
          underscore_kwargs_field_name = None, model = [(''self'', Any, Required)]\<rparr>"
  by (simp add: init_def init_with_def create_model_def f_self_def param_def init_start_def Let_def ALT_VAR_ARGS_def ALT_VAR_KWARGS_def)

lemma init_f_kwargs_kw:
  "init f_kwargs_kw =
     Inr \<lparr>arg_mapping = [0 \<mapsto> ''kwargs''], args_field_name = ''args'',
          kwargs_field_name = ''kwargs'', positional_only_args = {},
          underscore_args_field_name = None, underscore_kwargs_field_name = Some ''kw'',
          model = [(''kwargs'', Any, Required), (''kw'', DictStrOf Any, Default VNone)]\<rparr>"
  by (simp add: init_def init_with_def create_model_def f_kwargs_kw_def param_def init_start_def Let_def ALT_VAR_ARGS_def ALT_VAR_KWARGS_def)

section \<open>Properties of \<open>build_values\<close>\<close>

lemma bind_kwargs_positional_only:
  "k \<in> set (map fst kwargs) \<Longrightarrow> k \<in> positional_only_args vf \<Longrightarrow> k \<in> set (map fst (model vf)) \<Longrightarrow>
     bind_kwargs vf kwargs vals var_kwargs = Inl NotImplementedError"
  by (induction vf kwargs vals var_kwargs rule: bind_kwargs.induct) auto

lemma bind_kwargs_no_positional_only:
  "set (map fst kwargs) \<inter> positional_only_args vf = {} \<Longrightarrow>
     \<exists>vals1 vk. bind_kwargs vf kwargs vals var_kwargs = Inr (vals1, vk)"
  by (induction vf kwargs vals var_kwargs rule: bind_kwargs.induct) auto

lemma bind_args_has_var_args:
  "snd (bind_args vf i args vals) \<Longrightarrow>
     args_field_name vf \<in> set (map fst (fst (bind_args vf i args vals)))"
proof (induction args arbitrary: i vals)
  case Nil
  then show ?case by simp
next
  case (Cons a args)
  then show ?case
    by (cases "arg_mapping vf i") (auto simp: AList.dom_update)
qed

lemma bind_kwargs_keys_mono:
  "bind_kwargs vf kwargs vals vk = Inr (vals1, vk1) \<Longrightarrow>
     set (map fst vals) \<subseteq> set (map fst vals1)"
proof (induction vf kwargs vals vk rule: bind_kwargs.induct)
  case (1 vf vals vk)
  then show ?case by simp
next
  case (2 vf k v kwargs vals vk)
  have "set (map fst vals) \<subseteq> set (map fst (AList.update k v vals))"
    by (auto simp: AList.dom_update)
  with 2 show ?case
    by (auto split: if_splits)
qed

lemma build_values_has_var_args:
  assumes "build_values vf args kwargs = Inr (vals, True, hvk)"
  shows "args_field_name vf \<in> set (map fst vals)"
proof -
  obtain vals0 hva where b: "bind_args vf 0 args [] = (vals0, hva)" by (cases "bind_args vf 0 args []")
  from assms b obtain vals1 vk where k: "bind_kwargs vf kwargs vals0 [] = Inr (vals1, vk)"
    and h: "hva" and v: "vals = (if vk \<noteq> [] then AList.update (kwargs_field_name vf) (VDict vk) vals1 else vals1)"
    by (auto simp: build_values_def split: sum.splits if_splits)
  from bind_args_has_var_args [of vf 0 args "[]"] b h
  have "args_field_name vf \<in> set (map fst vals0)" by simp
  with bind_kwargs_keys_mono [OF k] have "args_field_name vf \<in> set (map fst vals1)" by blast
  with v show ?thesis by (auto simp: AList.dom_update)
qed

lemma build_values_has_var_kwargs:
  assumes "build_values vf args kwargs = Inr (vals, hva, True)"
  shows "kwargs_field_name vf \<in> set (map fst vals)"
  using assms
  by (auto simp: build_values_def AList.dom_update split: sum.splits if_splits prod.splits)

lemma model_call_extra:
  "k \<in> set (map fst vals) \<Longrightarrow> k \<notin> set (map fst (model vf)) \<Longrightarrow>
     model_call coerce vf vals = Inl ValidationError"
  by (auto simp: model_call_def list_all_iff)

lemma map_of_fields_distinct:
  "distinct (map p_name ps) \<Longrightarrow> p \<in> set ps \<Longrightarrow>
     map_of (map (\<lambda>p. (p_name p, field_of p)) ps) (p_name p) = Some (field_of p)"
  by (induction ps) (auto simp: image_iff)

lemma declared_fields_lookup:
  "distinct (map p_name ps) \<Longrightarrow> p \<in> set ps \<Longrightarrow>
     map_of (declared_fields ps) (p_name p) = Some (field_of p)"
  by (simp add: declared_fields_def init_loop_flds fold_update_distinct map_of_fields_distinct)

lemma bind_kwargs_lookup_other:
  "k \<notin> set (map fst kwargs) \<Longrightarrow> bind_kwargs vf kwargs vals vk = Inr (vals1, vk1) \<Longrightarrow>
     map_of vals1 k = map_of vals k"
proof (induction vf kwargs vals vk rule: bind_kwargs.induct)
  case (1 vf vals vk)
  then show ?case by simp
next
  case (2 vf k' v' kwargs vals vk)
  then show ?case
    by (auto simp: AList.update_conv' split: if_splits)
qed

lemma bind_kwargs_lookup:
  "set (map fst kwargs) \<inter> positional_only_args vf = {} \<Longrightarrow> distinct (map fst kwargs) \<Longrightarrow>
   (k, v) \<in> set kwargs \<Longrightarrow> k \<in> set (map fst (model vf)) \<Longrightarrow>
     \<exists>vals1 vk1. bind_kwargs vf kwargs vals vk = Inr (vals1, vk1) \<and> map_of vals1 k = Some v"
proof (induction vf kwargs vals vk rule: bind_kwargs.induct)
  case (1 vf vals vk)
  then show ?case by simp
next
  case (2 vf k' v' kwargs vals vk)
  from "2.prems"(1) have np: "k' \<notin> positional_only_args vf"
    and rest: "set (map fst kwargs) \<inter> positional_only_args vf = {}" by auto
  show ?case
  proof (cases "k' = k")
    case True
    with "2.prems"(2,3) have v: "v' = v" and nk: "k \<notin> set (map fst kwargs)"
      by (auto simp: image_iff)
    from bind_kwargs_no_positional_only [OF rest, of "AList.update k v vals" vk]
    obtain vals1 vk1 where b: "bind_kwargs vf kwargs (AList.update k v vals) vk = Inr (vals1, vk1)"
      by blast
    from bind_kwargs_lookup_other [OF nk b] have "map_of vals1 k = Some v"
      by (simp add: AList.update_conv')
    with b True v "2.prems"(4) np show ?thesis by simp
  next
    case False
    with "2.prems" have in_rest: "(k, v) \<in> set kwargs" and d: "distinct (map fst kwargs)"
      by auto
    show ?thesis
    proof (cases "k' \<in> set (map fst (model vf))")
      case True
      from "2.IH"(1) [OF True np rest d in_rest "2.prems"(4)] True np show ?thesis by simp
    next
      case False
      from "2.IH"(2) [OF False rest d in_rest "2.prems"(4)] False show ?thesis by simp
    qed
  qed
qed

text \<open>The positional walk when every index is mapped.\<close>

lemma bind_args_mapped:
  assumes "distinct names"
    and "\<And>j. arg_mapping vf j = (if j < length names then Some (names ! j) else None)"
  shows "i + length args \<le> length names \<Longrightarrow> set (map fst vals) \<inter> set (drop i names) = {} \<Longrightarrow>
     bind_args vf i args vals = (vals @ zip (drop i names) args, False)"
proof (induction args arbitrary: i vals)
  case Nil
  then show ?case by simp
next
  case (Cons a args)
  from Cons.prems(1) have i: "i < length names" by simp
  then have dr: "drop i names = names ! i # drop (Suc i) names"
    by (simp add: Cons_nth_drop_Suc)
  with Cons.prems(2) have fresh: "names ! i \<notin> set (map fst vals)" by auto
  from assms(1) dr have "names ! i \<notin> set (drop (Suc i) names)"
    by (metis distinct.simps(2) distinct_drop)
  with Cons.prems(2) dr
  have dis: "set (map fst (vals @ [(names ! i, a)])) \<inter> set (drop (Suc i) names) = {}"
    by auto
  from Cons.prems(1) have "Suc i + length args \<le> length names" by simp
  from Cons.IH [OF this dis] i dr show ?case
    by (simp add: assms(2) update_fresh [OF fresh])
qed

lemma bind_args_no_overflow:
  assumes "\<And>j. arg_mapping vf j = (if j < n then Some (names ! j) else None)"
  shows "i \<le> n \<Longrightarrow> \<not> snd (bind_args vf i args vals) \<Longrightarrow> i + length args \<le> n"
proof (induction args arbitrary: i vals)
  case Nil
  then show ?case by simp
next
  case (Cons a args)
  show ?case
  proof (cases "i < n")
    case True
    with Cons.prems(2) have "\<not> snd (bind_args vf (Suc i) args (AList.update (names ! i) a vals))"
      by (simp add: assms)
    from Cons.IH [OF _ this] True show ?thesis by simp
  next
    case False
    with Cons.prems(2) show ?thesis by (simp add: assms)
  qed
qed

text \<open>The keyword loop when no keyword overflows.\<close>

lemma bind_kwargs_var_kwargs_grows:
  "bind_kwargs vf kwargs vals vk = Inr (vals1, vk1) \<Longrightarrow> vk \<noteq> [] \<Longrightarrow> vk1 \<noteq> []"
  by (induction vf kwargs vals vk rule: bind_kwargs.induct) (auto split: if_splits)

lemma bind_kwargs_no_overflow:
  "bind_kwargs vf kwargs vals vk = Inr (vals1, []) \<Longrightarrow>
     set (map fst kwargs) \<subseteq> set (map fst (model vf))"
proof (induction vf kwargs vals vk rule: bind_kwargs.induct)
  case (1 vf vals vk)
  then show ?case by simp
next
  case (2 vf k v kwargs vals vk)
  show ?case
  proof (cases "k \<in> set (map fst (model vf))")
    case True
    with 2 show ?thesis by (auto split: if_splits)
  next
    case False
    with "2.prems" have "bind_kwargs vf kwargs vals (AList.update k v vk) = Inr (vals1, [])"
      by simp
    from bind_kwargs_var_kwargs_grows [OF this] show ?thesis by simp
  qed
qed

lemma bind_kwargs_fields:
  "set (map fst kwargs) \<subseteq> set (map fst (model vf)) \<Longrightarrow>
   set (map fst kwargs) \<inter> positional_only_args vf = {} \<Longrightarrow>
   distinct (map fst (vals @ kwargs)) \<Longrightarrow>
     bind_kwargs vf kwargs vals vk = Inr (vals @ kwargs, vk)"
proof (induction vf kwargs vals vk rule: bind_kwargs.induct)
  case (1 vf vals vk)
  then show ?case by simp
next
  case (2 vf k v kwargs vals vk)
  from "2.prems"(3) have fresh: "k \<notin> set (map fst vals)" by auto
  from "2.prems" have k: "k \<in> set (map fst (model vf))" "k \<notin> positional_only_args vf"
    by auto
  from "2.prems" have "set (map fst kwargs) \<subseteq> set (map fst (model vf))"
    "set (map fst kwargs) \<inter> positional_only_args vf = {}"
    "distinct (map fst ((vals @ [(k, v)]) @ kwargs))"
    by auto
  from "2.IH"(1) [OF k, unfolded update_fresh [OF fresh], OF this] k fresh
  show ?case by (simp add: update_fresh)
qed

text \<open>The keys that \<open>build_values\<close> can bind.\<close>

lemma bind_args_keys:
  "set (map fst (fst (bind_args vf i args vals))) \<subseteq>
     set (map fst vals) \<union> {n. \<exists>j<length args. arg_mapping vf (i + j) = Some n} \<union> {args_field_name vf}"
proof (induction args arbitrary: i vals)
  case Nil
  then show ?case by auto
next
  case (Cons a args)
  show ?case
  proof (cases "arg_mapping vf i")
    case None
    then show ?thesis by (auto simp: AList.dom_update)
  next
    case (Some n)
    have "{m. \<exists>j<length args. arg_mapping vf (Suc i + j) = Some m}
        \<subseteq> {m. \<exists>j<length (a # args). arg_mapping vf (i + j) = Some m}"
      by (auto intro: exI [of _ "Suc _"])
    moreover have "n \<in> {m. \<exists>j<length (a # args). arg_mapping vf (i + j) = Some m}"
      using Some by (auto intro: exI [of _ 0])
    moreover have "set (map fst (AList.update n a vals)) = insert n (set (map fst vals))"
      by (simp add: AList.dom_update)
    ultimately show ?thesis
      using Cons.IH [of "Suc i" "AList.update n a vals"] Some
      by (simp del: set_map) blast
  qed
qed

lemma bind_kwargs_keys:
  "bind_kwargs vf kwargs vals vk = Inr (vals1, vk1) \<Longrightarrow>
     set (map fst vals1) \<subseteq> set (map fst vals) \<union> set (map fst kwargs)"
proof (induction vf kwargs vals vk rule: bind_kwargs.induct)
  case (1 vf vals vk)
  then show ?case by simp
next
  case (2 vf k v kwargs vals vk)
  have "set (map fst (AList.update k v vals)) = insert k (set (map fst vals))"
    by (simp add: AList.dom_update)
  with 2 show ?case
    by (auto simp del: set_map split: if_splits)
qed

lemma build_values_keys:
  assumes "build_values vf args kwargs = Inr (vals, hva, hvk)"
  shows "set (map fst vals) \<subseteq>
     {n. \<exists>j<length args. arg_mapping vf j = Some n} \<union> set (map fst kwargs)
       \<union> {args_field_name vf, kwargs_field_name vf}"
proof -
  obtain vals0 hva0 where b: "bind_args vf 0 args [] = (vals0, hva0)"
    by (cases "bind_args vf 0 args []")
  from assms b obtain vals1 vk where k: "bind_kwargs vf kwargs vals0 [] = Inr (vals1, vk)"
    and v: "vals = (if vk \<noteq> [] then AList.update (kwargs_field_name vf) (VDict vk) vals1 else vals1)"
    by (auto simp: build_values_def split: sum.splits if_splits)
  from bind_args_keys [of vf 0 args "[]"] b
  have 0: "set (map fst vals0) \<subseteq> {n. \<exists>j<length args. arg_mapping vf j = Some n} \<union> {args_field_name vf}"
    by simp
  from v have "set (map fst vals) \<subseteq> insert (kwargs_field_name vf) (set (map fst vals1))"
    by (auto simp: AList.dom_update)
  with 0 bind_kwargs_keys [OF k] show ?thesis by blast
qed

section \<open>Properties of \<open>execute\<close>\<close>

lemma star_kwargs_string_keys: "star_kwargs (string_keys d) = Inr d"
  by (induction d) (auto simp: string_keys_def)

lemma update_string_keys_fresh:
  "k \<notin> set (map fst kw) \<Longrightarrow>
     AList.update (VStr k) v (string_keys kw) = string_keys (kw @ [(k, v)])"
  by (induction kw) (auto simp: string_keys_def)

lemma split_positional_only_string_keys:
  "distinct (map fst (kw @ d)) \<Longrightarrow>
     split_positional_only po (string_keys d) args' (string_keys kw) =
       (args' @ map snd (filter (\<lambda>kv. fst kv \<in> po) d),
        string_keys (kw @ filter (\<lambda>kv. fst kv \<notin> po) d))"
proof (induction d arbitrary: args' kw)
  case Nil
  then show ?case by (simp add: string_keys_def)
next
  case (Cons kv d)
  obtain k v where kv: "kv = (k, v)" by (cases kv)
  have sk: "string_keys ((k, v) # d) = (VStr k, v) # string_keys d"
    by (simp add: string_keys_def)
  show ?case
  proof (cases "k \<in> po")
    case True
    from Cons.prems kv have "distinct (map fst (kw @ d))" by simp
    from Cons.IH [OF this] True show ?thesis unfolding kv by (simp add: sk)
  next
    case False
    from Cons.prems kv have fresh: "k \<notin> set (map fst kw)"
      and d: "distinct (map fst ((kw @ [(k, v)]) @ d))" by auto
    from Cons.IH [OF d] False show ?thesis unfolding kv
      by (simp add: sk update_string_keys_fresh [OF fresh])
  qed
qed

lemma distinct_map_filter_fst:
  "distinct (map fst xs) \<Longrightarrow> distinct (map fst (filter P xs))"
  by (induction xs) auto

section \<open>Properties of validation\<close>

lemma validate_fields_keys:
  "validate_fields coerce fs vals = Inr d \<Longrightarrow> map fst d = map fst fs"
proof (induction fs arbitrary: d)
  case Nil
  then show ?case by simp
next
  case (Cons f fs)
  obtain n ann dflt where f: "f = (n, ann, dflt)" by (cases f)
  from Cons.prems f obtain w d' where "validate_fields coerce fs vals = Inr d'" and "d = (n, w) # d'"
    by (simp split: option.splits sum.splits field_default.splits) blast+
  with Cons.IH [of d'] f show ?case by simp
qed

lemma map_of_filter_fst:
  "map_of (filter (\<lambda>kv. fst kv \<in> S) xs) k = (if k \<in> S then map_of xs k else None)"
  by (induction xs) auto

lemma explicit_values_lookup:
  assumes "model_call coerce vf vals = Inr m"
    and "list_all (\<lambda>kv. map_of (m_iter m) (fst kv) = Some (snd kv)) vals"
  shows "map_of (explicit_values m) = map_of vals"
proof
  fix k
  from assms(1) have fs: "fields_set m = set (map fst vals)"
    by (cases "validate_fields coerce (model vf) vals")
       (simp_all add: model_call_def split: if_splits, force)
  show "map_of (explicit_values m) k = map_of vals k"
  proof (cases "map_of vals k")
    case None
    then have "k \<notin> set (map fst vals)" by (simp add: map_of_eq_None_iff)
    with fs None show ?thesis by (simp add: explicit_values_def map_of_filter_fst)
  next
    case (Some v)
    then have "(k, v) \<in> set vals" by (rule map_of_SomeD)
    with assms(2) have "map_of (m_iter m) k = Some v" by (auto simp: list_all_iff)
    moreover from \<open>(k, v) \<in> set vals\<close> have "k \<in> set (map fst vals)" by force
    ultimately show ?thesis using fs Some
      by (simp add: explicit_values_def map_of_filter_fst)
  qed
qed

lemma explicit_values_keys:
  assumes "model_call coerce vf vals = Inr m" and "distinct (map fst (model vf))"
  shows "distinct (map fst (explicit_values m))"
    and "set (map fst (explicit_values m)) \<subseteq> set (map fst (model vf))"
proof -
  from assms(1) obtain d where d: "validate_fields coerce (model vf) vals = Inr d"
    and m: "m_iter m = d"
    by (cases "validate_fields coerce (model vf) vals")
       (auto simp: model_call_def split: if_splits)
  from validate_fields_keys [OF d] m have k: "map fst (m_iter m) = map fst (model vf)" by simp
  with assms(2) show "distinct (map fst (explicit_values m))"
    by (simp add: explicit_values_def distinct_map_filter_fst)
  have "set (map fst (explicit_values m)) \<subseteq> set (map fst (m_iter m))"
    by (auto simp: explicit_values_def)
  with k show "set (map fst (explicit_values m)) \<subseteq> set (map fst (model vf))"
    by simp
qed

text \<open>
  A field that the caller supplies neither by position nor by keyword, and that is not one
  of the two overflow labels, is not among the explicitly set values.
\<close>

lemma omitted_not_explicit:
  assumes "build_values vf args kwargs = Inr (vals, hva, hvk)"
    and "model_call coerce vf vals = Inr m"
    and "k \<notin> set (map fst kwargs)"
    and "\<forall>j<length args. arg_mapping vf j \<noteq> Some k"
    and "k \<noteq> args_field_name vf" and "k \<noteq> kwargs_field_name vf"
  shows "k \<notin> set (map fst (explicit_values m))"
proof -
  from build_values_keys [OF assms(1)] assms(3-6) have "k \<notin> set (map fst vals)" by auto
  moreover from assms(2) have "fields_set m = set (map fst vals)"
    by (cases "validate_fields coerce (model vf) vals")
       (simp_all add: model_call_def split: if_splits, force)
  ultimately show ?thesis by (auto simp: explicit_values_def)
qed

section \<open>Properties of direct calls\<close>

text \<open>Callables whose parameters are all positional-or-keyword.\<close>

lemma pk_filter_positional:
  "\<forall>p\<in>set ps. p_kind p = POSITIONAL_OR_KEYWORD \<Longrightarrow> filter positional ps = ps"
  by (induction ps) (auto simp: positional_def)

lemma pk_keyword_names:
  "\<forall>p\<in>set ps. p_kind p = POSITIONAL_OR_KEYWORD \<Longrightarrow> keyword_names ps = map p_name ps"
  by (induction ps) (auto simp: keyword_names_def)

lemma pk_positional_only:
  "init_with cm ps = Inr vf \<Longrightarrow> \<forall>p\<in>set ps. p_kind p = POSITIONAL_OR_KEYWORD \<Longrightarrow>
     positional_only_args vf = {}"
  by (auto simp: init_with_attributes(3))

lemma pk_arg_mapping:
  "init_with cm ps = Inr vf \<Longrightarrow> \<forall>p\<in>set ps. p_kind p = POSITIONAL_OR_KEYWORD \<Longrightarrow>
     arg_mapping vf j = (if j < length ps then Some (map p_name ps ! j) else None)"
  by (auto simp: init_with_attributes(4) positional_def)

lemma pk_no_variadic:
  "\<forall>p\<in>set ps. p_kind p = POSITIONAL_OR_KEYWORD \<Longrightarrow>
     VAR_POSITIONAL \<notin> set (map p_kind ps) \<and> VAR_KEYWORD \<notin> set (map p_kind ps)"
  by auto

text \<open>Python's keyword binding when no keyword is refused.\<close>

lemma py_keywords_all:
  "set (map fst kwargs) \<subseteq> set (keyword_names ps) \<Longrightarrow> distinct (map fst (bound @ kwargs)) \<Longrightarrow>
     py_keywords ps kwargs bound extra = Inr (bound @ kwargs, extra)"
proof (induction ps kwargs bound extra rule: py_keywords.induct)
  case (1 ps bound extra)
  then show ?case by simp
next
  case (2 ps k v kwargs bound extra)
  from "2.prems" have k: "k \<in> set (keyword_names ps)" "k \<notin> set (map fst bound)"
    by auto
  from "2.prems" have "set (map fst kwargs) \<subseteq> set (keyword_names ps)"
    "distinct (map fst ((bound @ [(k, v)]) @ kwargs))"
    by auto
  from "2.IH"(1) [OF k this] k show ?case by simp
qed

text \<open>
  A valid call of a callable with positional-or-keyword parameters only, whose model has
  no other fields than declared parameters: the wrapped function is called by keyword
  with the bound values.
\<close>

lemma pk_call:
  assumes init: "init_with cm ps = Inr vf" and dp: "distinct (map p_name ps)"
    and pk: "\<forall>p\<in>set ps. p_kind p = POSITIONAL_OR_KEYWORD"
    and sub: "set (map fst (model vf)) \<subseteq> set (map p_name ps)"
    and dm: "distinct (map fst (model vf))"
    and pu: "passes_unchanged vf coerce args kwargs"
    and ns: "''self'' \<notin> set (map fst kwargs)"
  obtains vals where
    "build_values vf args kwargs = Inr (vals, False, False)"
    "call vf coerce (py_call ps body) args kwargs =
       (case py_env ps (map_of vals) [] [] of Inl e \<Rightarrow> Inl e | Inr env \<Rightarrow> body env)"
proof -
  from pu obtain vals hva hvk m where bv: "build_values vf args kwargs = Inr (vals, hva, hvk)"
    and mc: "model_call coerce vf vals = Inr m"
    and un: "list_all (\<lambda>kv. map_of (m_iter m) (fst kv) = Some (snd kv)) vals"
    by (auto simp: passes_unchanged_def split: sum.splits prod.splits)
  note nv = pk_no_variadic [OF pk]
  from init_with_args_label(2) [OF init conjunct1 [OF nv]] sub
  have la: "args_field_name vf \<notin> set (map fst (model vf))" by blast
  from init_with_kwargs_label(2) [OF init conjunct2 [OF nv]] sub
  have lk: "kwargs_field_name vf \<notin> set (map fst (model vf))" by blast
  have "\<not> hva"
  proof
    assume hva
    with bv have "build_values vf args kwargs = Inr (vals, True, hvk)" by simp
    then have "args_field_name vf \<in> set (map fst vals)"
      by (rule build_values_has_var_args)
    from model_call_extra [OF this la] mc show False by simp
  qed
  moreover have "\<not> hvk"
  proof
    assume hvk
    with bv have "build_values vf args kwargs = Inr (vals, hva, True)" by simp
    then have "kwargs_field_name vf \<in> set (map fst vals)"
      by (rule build_values_has_var_kwargs)
    from model_call_extra [OF this lk] mc show False by simp
  qed
  ultimately have bv': "build_values vf args kwargs = Inr (vals, False, False)"
    using bv by simp
  let ?d = "explicit_values m"
  from explicit_values_keys [OF mc dm] sub
  have dk: "distinct (map fst ?d)" "set (map fst ?d) \<subseteq> set (keyword_names ps)"
    by (simp_all add: pk_keyword_names [OF pk])
  from py_keywords_all [of ?d ps "[]" "[]"] dk
  have "py_keywords ps ?d [] [] = Inr (?d, [])" by simp
  then have "py_bind ps [] ?d = py_env ps (map_of ?d) [] []"
    by (simp add: py_bind_def)
  with explicit_values_lookup [OF mc un]
  have pb: "py_call ps body [] ?d =
      (case py_env ps (map_of vals) [] [] of Inl e \<Rightarrow> Inl e | Inr env \<Rightarrow> body env)"
    by (simp add: py_call_def)
  have "reconstruct vf m False False = Inr ([], ?d)"
    by (simp add: reconstruct_def star_kwargs_string_keys pk_positional_only [OF init pk])
  with bv' mc pb ns have "call vf coerce (py_call ps body) args kwargs =
      (case py_env ps (map_of vals) [] [] of Inl e \<Rightarrow> Inl e | Inr env \<Rightarrow> body env)"
    by (simp add: call_def execute_def)
  with bv' show ?thesis by (rule that)
qed

section \<open>Claims\<close>

text \<open>
  C1 (defect in the code). For \<open>f(a, b=2, *rest, **kw)\<close> the call
  \<open>wrap(f)(1, 2, 3, x=4)\<close> should bind \<open>rest = (3,)\<close> and \<open>kw = {x: 4}\<close> and invoke
  \<open>f(1, 2, 3, x=4)\<close>. The loop of \<open>__init__\<close> stores the names of the variadic
  parameters in \<open>_args_field_name\<close> and \<open>_kwargs_field_name\<close>, which nothing reads, so the
  overflow is bound under \<open>args\<close> and \<open>kwargs\<close>, which are not fields of the model:
  validation rejects the call and \<open>f\<close> is never invoked.
\<close>

theorem overflow_into_undeclared_label_rejected:
  "\<exists>vf. init f_a_b_rest_kw = Inr vf
     \<and> args_field_name vf = ''args'' \<and> underscore_args_field_name vf = Some ''rest''
     \<and> kwargs_field_name vf = ''kwargs'' \<and> underscore_kwargs_field_name vf = Some ''kw''
     \<and> build_values vf [VInt 1, VInt 2, VInt 3] [(''x'', VInt 4)] =
         Inr ([(''a'', VInt 1), (''b'', VInt 2), (''args'', VList [VInt 3]),
               (''kwargs'', VDict [(''x'', VInt 4)])], True, True)
     \<and> (\<forall>coerce. invocation vf coerce [VInt 1, VInt 2, VInt 3] [(''x'', VInt 4)]
           = Inl ValidationError)"
  by (simp add: init_f_a_b_rest_kw invocation_def call_def build_values_def model_call_def)

text \<open>
  C3, as the claim states it, fails: for \<open>f(args=1)\<close> the call \<open>wrap(f)(1, 2, 3)\<close> does
  not reach the wrapped callable, which therefore receives nothing.
\<close>

theorem overflow_beside_args_parameter_rejected:
  "validate_arguments f_args accept_all record_call [VInt 1, VInt 2, VInt 3] [] = Inl ValidationError"
  by (simp add: validate_arguments_def init_f_args call_def build_values_def model_call_def)

text \<open>
  C3, amended. For \<open>f(args=1)\<close> the overflow label is the reserved \<open>var__args\<close>;
  \<open>build_values\<close> on \<open>(1, 2, 3)\<close> binds \<open>args = 1\<close> and puts the overflow \<open>[2, 3]\<close>
  under \<open>var__args\<close>, so the value of the declared \<open>args\<close> is not overwritten. The label
  is not a field of the model, which forbids extra keys: whatever the validator of the
  fields, the call fails with \<open>ValidationError\<close> and the wrapped callable is not invoked.
\<close>

theorem overflow_beside_args_parameter:
  "\<exists>vf. init f_args = Inr vf
     \<and> args_field_name vf = ALT_VAR_ARGS
     \<and> build_values vf [VInt 1, VInt 2, VInt 3] [] =
         Inr ([(''args'', VInt 1), (ALT_VAR_ARGS, VList [VInt 2, VInt 3])], True, False)
     \<and> ALT_VAR_ARGS \<notin> set (map fst (model vf))
     \<and> (\<forall>coerce. invocation vf coerce [VInt 1, VInt 2, VInt 3] [] = Inl ValidationError)"
  by (simp add: init_f_args ALT_VAR_ARGS_def invocation_def call_def build_values_def model_call_def)



text \<open>
  C8. When a keyword argument names a field of the model that is a positional-only
  parameter, \<open>build_values\<close> raises \<open>NotImplementedError\<close>. The call through the
  wrapper fails with that error (with the \<open>TypeError\<close> of \<open>__call__\<close> if a keyword is
  named \<open>self\<close>), and the wrapped callable is not invoked.
\<close>

theorem positional_only_by_keyword_raises:
  assumes "k \<in> set (map fst kwargs)"
    and "k \<in> set (map fst (model vf))"
    and "k \<in> positional_only_args vf"
  shows "build_values vf args kwargs = Inl NotImplementedError
       \<and> invocation vf coerce args kwargs =
           Inl (if ''self'' \<in> set (map fst kwargs) then TypeError else NotImplementedError)
       \<and> call vf coerce raw_function args kwargs =
           Inl (if ''self'' \<in> set (map fst kwargs) then TypeError else NotImplementedError)"
proof -
  from assms have "bind_kwargs vf kwargs vals [] = Inl NotImplementedError" for vals
    by (simp add: bind_kwargs_positional_only)
  then have "build_values vf args kwargs = Inl NotImplementedError"
    by (simp add: build_values_def split: prod.splits)
  then show ?thesis by (simp add: call_def invocation_def)
qed

theorem positional_only_by_keyword_raises_witness:
  "\<exists>vf. init f_a_slash_b = Inr vf \<and> ''a'' \<in> set (map fst [(''a'', VInt 1), (''b'', VInt 2)])
     \<and> ''a'' \<in> set (map fst (model vf))
     \<and> ''a'' \<in> positional_only_args vf
     \<and> build_values vf [] [(''a'', VInt 1), (''b'', VInt 2)] = Inl NotImplementedError
     \<and> invocation vf accept_all [] [(''a'', VInt 1), (''b'', VInt 2)] = Inl NotImplementedError
     \<and> call vf accept_all record_call [] [(''a'', VInt 1), (''b'', VInt 2)] = Inl NotImplementedError"
proof -
  let ?vf = "\<lparr>arg_mapping = [0 \<mapsto> ''a'', Suc 0 \<mapsto> ''b''], args_field_name = ''args'',
          kwargs_field_name = ''kwargs'', positional_only_args = {''a''},
          underscore_args_field_name = None, underscore_kwargs_field_name = None,
          model = [(''a'', Any, Required), (''b'', Any, Required)]\<rparr>"
  let ?kw = "[(''a'', VInt 1), (''b'', VInt 2)]"
  have h: "''a'' \<in> set (map fst ?kw)" "''a'' \<in> set (map fst (model ?vf))"
    "''a'' \<in> positional_only_args ?vf"
    by simp_all
  from positional_only_by_keyword_raises [OF h, of "[]" accept_all record_call]
  have "build_values ?vf [] ?kw = Inl NotImplementedError"
    and "invocation ?vf accept_all [] ?kw = Inl NotImplementedError"
    and "call ?vf accept_all record_call [] ?kw = Inl NotImplementedError"
    by simp_all
  with init_f_a_slash_b h show ?thesis
    by (intro exI [of _ ?vf] conjI) assumption+
qed

text \<open>
  C9. Once the arguments are bound: if validation fails (in a call with no keyword named
  \<open>self\<close>, so that the body of \<open>__call__\<close> runs), the call through the wrapper fails
  with that error and the wrapped callable is not invoked; if the wrapped callable is
  invoked, the call through the wrapper returns exactly what it returns or raises.
\<close>

theorem errors_propagate:
  assumes "build_values vf args kwargs = Inr (vals, has_var_args, has_var_kwargs)"
  shows "(''self'' \<notin> set (map fst kwargs) \<and> model_call coerce vf vals = Inl e \<longrightarrow>
            call vf coerce raw_function args kwargs = Inl e
            \<and> invocation vf coerce args kwargs = Inl e)
       \<and> (invocation vf coerce args kwargs = Inr (a, k) \<longrightarrow>
            call vf coerce raw_function args kwargs = raw_function a k)"
  using assms
  by (auto simp: call_def invocation_def execute_def split: sum.splits if_splits)

theorem errors_propagate_witness:
  "\<exists>vf. build_values vf [] [] = Inr ([], False, False)
       \<and> ''self'' \<notin> set (map fst ([] :: py_dict))
       \<and> model_call accept_all vf [] = Inl ValidationError
       \<and> call vf accept_all raising [] [] = Inl ValidationError
       \<and> invocation vf accept_all [] [] = Inl ValidationError
       \<and> build_values vf [VInt 1] [] = Inr ([(''a'', VInt 1)], False, False)
       \<and> invocation vf accept_all [VInt 1] [] = Inr ([], [(''a'', VInt 1)])
       \<and> call vf accept_all raising [VInt 1] [] = Inl (Raised ''boom'')"
proof -
  let ?vf = "\<lparr>arg_mapping = [0 \<mapsto> ''a''], args_field_name = ''args'', kwargs_field_name = ''kwargs'',
          positional_only_args = {}, underscore_args_field_name = None,
          underscore_kwargs_field_name = None, model = [(''a'', Any, Required)]\<rparr>"
  have b0: "build_values ?vf [] [] = Inr ([], False, False)"
    by (simp add: build_values_def)
  have m0: "model_call accept_all ?vf [] = Inl ValidationError"
    by (simp add: model_call_def)
  have b1: "build_values ?vf [VInt 1] [] = Inr ([(''a'', VInt 1)], False, False)"
    by (simp add: build_values_def)
  have i1: "invocation ?vf accept_all [VInt 1] [] = Inr ([], [(''a'', VInt 1)])"
    by (simp add: invocation_def call_def b1 model_call_def accept_all_def execute_def
        reconstruct_def string_keys_def dict_update_def explicit_values_def)
  have r: "raising [] [(''a'', VInt 1)] = Inl (Raised ''boom'')"
    by (simp add: raising_def)
  from errors_propagate [OF b0, of accept_all ValidationError raising "[]" "[]"] m0
    errors_propagate [OF b1, of accept_all ValidationError raising "[]" "[(''a'', VInt 1)]"] i1
    b0 b1 r
  show ?thesis by (intro exI [of _ ?vf]) simp
qed

text \<open>
  C2, as the claim states it, fails: for \<open>f(a)\<close>, which declares no variadic parameter,
  neither overflow label is a field of the model.
\<close>

theorem overflow_labels_not_fields:
  "map_sum id overflow_fields_declared (init f_a) = Inr False"
  by (simp add: init_f_a overflow_fields_declared_def)

text \<open>
  C2, amended. \<open>__init__\<close> hands the declared fields to \<open>create_model\<close>; there a
  declared variadic positional parameter is a field of type \<open>Tuple[T, ...]\<close> with default
  \<open>None\<close>, a declared variadic keyword parameter a field of type \<open>Dict[str, T]\<close> with
  default \<open>None\<close>, \<open>T\<close> being the annotation of the parameter (\<open>Any\<close> if it has none).
  When no variadic positional parameter is declared, the overflow label
  \<open>args_field_name\<close> is \<open>args\<close>, or \<open>var__args\<close> if a parameter is named \<open>args\<close>;
  it is then not a field of the model (a model that has none but declared parameters as
  fields, whatever \<open>create_model\<close> does otherwise), so a call that binds overflow
  positional arguments fails validation. The same holds for \<open>kwargs_field_name\<close>,
  \<open>kwargs\<close> and \<open>var__kwargs\<close> when no variadic keyword parameter is declared.
\<close>

theorem declared_variadics_and_overflow_labels:
  assumes "init_with cm ps = Inr vf" and "distinct (map p_name ps)"
    and "set (map fst (model vf)) \<subseteq> set (map p_name ps)"
  shows "cm (declared_fields ps) = Inr (model vf)
     \<and> (\<forall>p\<in>set ps. p_kind p = VAR_POSITIONAL \<longrightarrow>
          map_of (declared_fields ps) (p_name p) =
            Some (TupleOf (case p_annotation p of None \<Rightarrow> Any | Some a \<Rightarrow> a), Default VNone))
     \<and> (\<forall>p\<in>set ps. p_kind p = VAR_KEYWORD \<longrightarrow>
          map_of (declared_fields ps) (p_name p) =
            Some (DictStrOf (case p_annotation p of None \<Rightarrow> Any | Some a \<Rightarrow> a), Default VNone))
     \<and> (VAR_POSITIONAL \<notin> set (map p_kind ps) \<longrightarrow>
          args_field_name vf = (if ''args'' \<in> set (map p_name ps) then ALT_VAR_ARGS else ''args'')
          \<and> args_field_name vf \<notin> set (map fst (model vf))
          \<and> (\<forall>args kwargs vals hvk coerce.
                build_values vf args kwargs = Inr (vals, True, hvk) \<longrightarrow>
                model_call coerce vf vals = Inl ValidationError))
     \<and> (VAR_KEYWORD \<notin> set (map p_kind ps) \<longrightarrow>
          kwargs_field_name vf = (if ''kwargs'' \<in> set (map p_name ps) then ALT_VAR_KWARGS else ''kwargs'')
          \<and> kwargs_field_name vf \<notin> set (map fst (model vf))
          \<and> (\<forall>args kwargs vals hva coerce.
                build_values vf args kwargs = Inr (vals, hva, True) \<longrightarrow>
                model_call coerce vf vals = Inl ValidationError))"
proof (intro conjI ballI impI allI)
  from init_with_init [OF assms(1)] show "cm (declared_fields ps) = Inr (model vf)" by blast
next
  fix p assume "p \<in> set ps" "p_kind p = VAR_POSITIONAL"
  with declared_fields_lookup [OF assms(2), of p]
  show "map_of (declared_fields ps) (p_name p) =
            Some (TupleOf (case p_annotation p of None \<Rightarrow> Any | Some a \<Rightarrow> a), Default VNone)"
    by (simp add: field_of_def Let_def)
next
  fix p assume "p \<in> set ps" "p_kind p = VAR_KEYWORD"
  with declared_fields_lookup [OF assms(2), of p]
  show "map_of (declared_fields ps) (p_name p) =
            Some (DictStrOf (case p_annotation p of None \<Rightarrow> Any | Some a \<Rightarrow> a), Default VNone)"
    by (simp add: field_of_def Let_def)
next
  assume n: "VAR_POSITIONAL \<notin> set (map p_kind ps)"
  from init_with_args_label [OF assms(1) n] assms(3)
  show "args_field_name vf = (if ''args'' \<in> set (map p_name ps) then ALT_VAR_ARGS else ''args'')"
    and l: "args_field_name vf \<notin> set (map fst (model vf))" by blast+
  fix args kwargs vals hvk coerce
  assume "build_values vf args kwargs = Inr (vals, True, hvk)"
  from model_call_extra [OF build_values_has_var_args [OF this] l]
  show "model_call coerce vf vals = Inl ValidationError" .
next
  assume n: "VAR_KEYWORD \<notin> set (map p_kind ps)"
  from init_with_kwargs_label [OF assms(1) n] assms(3)
  show "kwargs_field_name vf = (if ''kwargs'' \<in> set (map p_name ps) then ALT_VAR_KWARGS else ''kwargs'')"
    and l: "kwargs_field_name vf \<notin> set (map fst (model vf))" by blast+
  fix args kwargs vals hva coerce
  assume "build_values vf args kwargs = Inr (vals, hva, True)"
  from model_call_extra [OF build_values_has_var_kwargs [OF this] l]
  show "model_call coerce vf vals = Inl ValidationError" .
qed

theorem declared_variadics_and_overflow_labels_witness:
  "\<exists>vf vf'. init f_a = Inr vf \<and> distinct (map p_name f_a)
     \<and> set (map fst (model vf)) \<subseteq> set (map p_name f_a)
     \<and> Inr (create_model (declared_fields f_a)) = (Inr (model vf) :: error + fields)
     \<and> VAR_POSITIONAL \<notin> set (map p_kind f_a)
     \<and> args_field_name vf = ''args'' \<and> ''args'' \<notin> set (map fst (model vf))
     \<and> build_values vf [VInt 1, VInt 2] [] = Inr ([(''a'', VInt 1), (''args'', VList [VInt 2])], True, False)
     \<and> model_call accept_all vf [(''a'', VInt 1), (''args'', VList [VInt 2])] = Inl ValidationError
     \<and> VAR_KEYWORD \<notin> set (map p_kind f_a)
     \<and> kwargs_field_name vf = ''kwargs'' \<and> ''kwargs'' \<notin> set (map fst (model vf))
     \<and> build_values vf [] [(''x'', VInt 4)] = Inr ([(''kwargs'', VDict [(''x'', VInt 4)])], False, True)
     \<and> model_call accept_all vf [(''kwargs'', VDict [(''x'', VInt 4)])] = Inl ValidationError
     \<and> init f_a_b_rest_kw = Inr vf' \<and> distinct (map p_name f_a_b_rest_kw)
     \<and> set (map fst (model vf')) \<subseteq> set (map p_name f_a_b_rest_kw)
     \<and> param ''rest'' VAR_POSITIONAL None \<in> set f_a_b_rest_kw
     \<and> p_kind (param ''rest'' VAR_POSITIONAL None) = VAR_POSITIONAL
     \<and> map_of (declared_fields f_a_b_rest_kw) ''rest'' = Some (TupleOf Any, Default VNone)
     \<and> param ''kw'' VAR_KEYWORD None \<in> set f_a_b_rest_kw
     \<and> p_kind (param ''kw'' VAR_KEYWORD None) = VAR_KEYWORD
     \<and> map_of (declared_fields f_a_b_rest_kw) ''kw'' = Some (DictStrOf Any, Default VNone)"
proof -
  let ?cm = "\<lambda>flds. Inr (create_model flds) :: error + fields"
  let ?vf = "\<lparr>arg_mapping = [0 \<mapsto> ''a''], args_field_name = ''args'', kwargs_field_name = ''kwargs'',
          positional_only_args = {}, underscore_args_field_name = None,
          underscore_kwargs_field_name = None, model = [(''a'', Any, Required)]\<rparr>"
  let ?vf' = "\<lparr>arg_mapping = [0 \<mapsto> ''a'', Suc 0 \<mapsto> ''b''], args_field_name = ''args'',
          kwargs_field_name = ''kwargs'', positional_only_args = {},
          underscore_args_field_name = Some ''rest'', underscore_kwargs_field_name = Some ''kw'',
          model = [(''a'', Any, Required), (''b'', Any, Default (VInt 2)),
                   (''rest'', TupleOf Any, Default VNone), (''kw'', DictStrOf Any, Default VNone)]\<rparr>"
  have i: "init_with ?cm f_a = Inr ?vf" using init_f_a by (simp add: init_def)
  have i': "init_with ?cm f_a_b_rest_kw = Inr ?vf'" using init_f_a_b_rest_kw by (simp add: init_def)
  have d: "distinct (map p_name f_a)" by (simp add: f_a_def param_def)
  have d': "distinct (map p_name f_a_b_rest_kw)" by (simp add: f_a_b_rest_kw_def param_def)
  have m: "set (map fst (model ?vf)) \<subseteq> set (map p_name f_a)" by (simp add: f_a_def param_def)
  have m': "set (map fst (model ?vf')) \<subseteq> set (map p_name f_a_b_rest_kw)"
    by (simp add: f_a_b_rest_kw_def param_def)
  have k: "VAR_POSITIONAL \<notin> set (map p_kind f_a)" "VAR_KEYWORD \<notin> set (map p_kind f_a)"
    "''args'' \<notin> set (map p_name f_a)" "''kwargs'' \<notin> set (map p_name f_a)"
    by (simp_all add: f_a_def param_def)
  have b: "build_values ?vf [VInt 1, VInt 2] [] = Inr ([(''a'', VInt 1), (''args'', VList [VInt 2])], True, False)"
    "build_values ?vf [] [(''x'', VInt 4)] = Inr ([(''kwargs'', VDict [(''x'', VInt 4)])], False, True)"
    by (simp_all add: build_values_def)
  have r: "param ''rest'' VAR_POSITIONAL None \<in> set f_a_b_rest_kw"
    "p_kind (param ''rest'' VAR_POSITIONAL None) = VAR_POSITIONAL"
    "param ''kw'' VAR_KEYWORD None \<in> set f_a_b_rest_kw"
    "p_kind (param ''kw'' VAR_KEYWORD None) = VAR_KEYWORD"
    by (simp_all add: f_a_b_rest_kw_def param_def)
  have r': "p_name (param ''rest'' VAR_POSITIONAL None) = ''rest''"
    "p_annotation (param ''rest'' VAR_POSITIONAL None) = None"
    "p_name (param ''kw'' VAR_KEYWORD None) = ''kw''"
    "p_annotation (param ''kw'' VAR_KEYWORD None) = None"
    by (simp_all add: param_def)
  note t = declared_variadics_and_overflow_labels [OF i d m]
    and t' = declared_variadics_and_overflow_labels [OF i' d' m']
  from t have 0: "Inr (create_model (declared_fields f_a)) = (Inr (model ?vf) :: error + fields)"
    by blast
  from t k have 1: "args_field_name ?vf = ''args''"
    "''args'' \<notin> set (map fst (model ?vf))" "kwargs_field_name ?vf = ''kwargs''"
    "''kwargs'' \<notin> set (map fst (model ?vf))"
    by simp_all
  from t k b have 2: "model_call accept_all ?vf [(''a'', VInt 1), (''args'', VList [VInt 2])] = Inl ValidationError"
    "model_call accept_all ?vf [(''kwargs'', VDict [(''x'', VInt 4)])] = Inl ValidationError"
    by blast+
  from t' r(1,2) have "map_of (declared_fields f_a_b_rest_kw) (p_name (param ''rest'' VAR_POSITIONAL None)) =
      Some (TupleOf (case p_annotation (param ''rest'' VAR_POSITIONAL None) of None \<Rightarrow> Any | Some a \<Rightarrow> a),
            Default VNone)"
    by blast
  then have 3: "map_of (declared_fields f_a_b_rest_kw) ''rest'' = Some (TupleOf Any, Default VNone)"
    by (simp add: r')
  from t' r(3,4) have "map_of (declared_fields f_a_b_rest_kw) (p_name (param ''kw'' VAR_KEYWORD None)) =
      Some (DictStrOf (case p_annotation (param ''kw'' VAR_KEYWORD None) of None \<Rightarrow> Any | Some a \<Rightarrow> a),
            Default VNone)"
    by blast
  then have 4: "map_of (declared_fields f_a_b_rest_kw) ''kw'' = Some (DictStrOf Any, Default VNone)"
    by (simp add: r')
  from init_f_a init_f_a_b_rest_kw d d' m m' k b r 0 1 2 3 4 show ?thesis
    by (intro exI [of _ ?vf] exI [of _ ?vf'] conjI) assumption+
qed

text \<open>
  C6. For \<open>f(a, /, b)\<close> the call \<open>wrap(f)(x, b=y)\<close>, with values that the validator
  leaves as they are, invokes \<open>f(x, b=y)\<close>. In general, when no overflow was bound and
  the callable has positional-only parameters, \<open>execute\<close> passes the explicitly set
  positional-only fields positionally, in the order of the fields, and every other
  explicitly set field by keyword.
\<close>

theorem positional_only_reconstruction:
  assumes "coerce Any x = Some x" and "coerce Any y = Some y"
  shows "validate_arguments f_a_slash_b coerce raw_function [x] [(''b'', y)]
           = raw_function [x] [(''b'', y)]
     \<and> (\<forall>vf m. positional_only_args vf \<noteq> {} \<and> distinct (map fst (m_iter m)) \<longrightarrow>
          reconstruct vf m False False =
            Inr (map snd (filter (\<lambda>kv. fst kv \<in> positional_only_args vf) (explicit_values m)),
                 filter (\<lambda>kv. fst kv \<notin> positional_only_args vf) (explicit_values m)))"
proof (intro conjI allI impI)
  from assms show "validate_arguments f_a_slash_b coerce raw_function [x] [(''b'', y)]
           = raw_function [x] [(''b'', y)]"
    by (simp add: validate_arguments_def init_f_a_slash_b call_def build_values_def
        model_call_def execute_def reconstruct_def string_keys_def dict_update_def explicit_values_def)
next
  fix vf :: validated_function and m :: model_instance
  assume a: "positional_only_args vf \<noteq> {} \<and> distinct (map fst (m_iter m))"
  then have "distinct (map fst ([] @ explicit_values m))"
    by (simp add: explicit_values_def distinct_map_filter_fst)
  from split_positional_only_string_keys [OF this, of "positional_only_args vf" "[]"]
  have "split_positional_only (positional_only_args vf) (string_keys (explicit_values m)) [] [] =
      (map snd (filter (\<lambda>kv. fst kv \<in> positional_only_args vf) (explicit_values m)),
       string_keys (filter (\<lambda>kv. fst kv \<notin> positional_only_args vf) (explicit_values m)))"
    by (simp add: string_keys_def)
  with a show "reconstruct vf m False False =
            Inr (map snd (filter (\<lambda>kv. fst kv \<in> positional_only_args vf) (explicit_values m)),
                 filter (\<lambda>kv. fst kv \<notin> positional_only_args vf) (explicit_values m))"
    by (simp add: reconstruct_def star_kwargs_string_keys Let_def)
qed

theorem positional_only_reconstruction_witness:
  "accept_all Any (VInt 1) = Some (VInt 1) \<and> accept_all Any (VInt 2) = Some (VInt 2)
   \<and> validate_arguments f_a_slash_b accept_all record_call [VInt 1] [(''b'', VInt 2)]
       = Inr ([VInt 1], [(''b'', VInt 2)])
   \<and> (\<exists>vf m. init f_a_slash_b = Inr vf
        \<and> model_call accept_all vf [(''a'', VInt 1), (''b'', VInt 2)] = Inr m
        \<and> positional_only_args vf \<noteq> {} \<and> distinct (map fst (m_iter m))
        \<and> reconstruct vf m False False = Inr ([VInt 1], [(''b'', VInt 2)]))"
proof -
  have c: "accept_all Any (VInt 1) = Some (VInt 1)" "accept_all Any (VInt 2) = Some (VInt 2)"
    by (simp_all add: accept_all_def)
  let ?vf = "\<lparr>arg_mapping = [0 \<mapsto> ''a'', Suc 0 \<mapsto> ''b''], args_field_name = ''args'',
          kwargs_field_name = ''kwargs'', positional_only_args = {''a''},
          underscore_args_field_name = None, underscore_kwargs_field_name = None,
          model = [(''a'', Any, Required), (''b'', Any, Required)]\<rparr>"
  let ?m = "\<lparr>m_iter = [(''a'', VInt 1), (''b'', VInt 2)], fields_set = {''a'', ''b''}\<rparr>"
  have m: "model_call accept_all ?vf [(''a'', VInt 1), (''b'', VInt 2)] = Inr ?m"
    by (simp add: model_call_def accept_all_def) 
  have h: "positional_only_args ?vf \<noteq> {} \<and> distinct (map fst (m_iter ?m))" by simp
  from positional_only_reconstruction [of accept_all "VInt 1" "VInt 2" record_call, OF c] h
  have "validate_arguments f_a_slash_b accept_all record_call [VInt 1] [(''b'', VInt 2)]
       = Inr ([VInt 1], [(''b'', VInt 2)])"
    and "reconstruct ?vf ?m False False = Inr ([VInt 1], [(''b'', VInt 2)])"
    by (simp_all add: record_call_def explicit_values_def)
  with c m h init_f_a_slash_b show ?thesis by blast
qed

text \<open>
  C7 (defect in the code). For \<open>f(*rest, args=1)\<close> the call \<open>wrap(f)(5)\<close> omits the
  keyword-only parameter \<open>args\<close>, which has a default. The overflow label is still
  \<open>args\<close> (the name \<open>rest\<close> went to \<open>_args_field_name\<close>), so the overflow
  \<open>[5]\<close> is bound to the field \<open>args\<close>, which then is among the explicitly set values
  that \<open>execute\<close> reconstructs the call from.
\<close>

theorem omitted_parameter_among_explicit_values:
  "\<exists>vf m. init f_rest_args = Inr vf
     \<and> build_values vf [VInt 5] [] = Inr ([(''args'', VList [VInt 5])], True, False)
     \<and> model_call accept_all vf [(''args'', VList [VInt 5])] = Inr m
     \<and> explicit_values m = [(''args'', VList [VInt 5])]
     \<and> invocation vf accept_all [VInt 5] [] = Inr ([VInt 5], [])"
  by (simp add: init_f_rest_args build_values_def model_call_def accept_all_def
        explicit_values_def invocation_def call_def execute_def reconstruct_def string_keys_def dict_update_def)

text \<open>
  Where the keyword value does win: \<open>build_values\<close> raises no error for a keyword that
  names a field already bound by position (no keyword naming a positional-only
  parameter), and the values it returns hold the keyword's value for every field that is
  not the overflow label \<open>kwargs_field_name\<close>.
\<close>

lemma keyword_wins_unless_overflow_label:
  assumes "distinct (map fst kwargs)"
    and "set (map fst kwargs) \<inter> positional_only_args vf = {}"
    and "(k, v) \<in> set kwargs"
    and "k \<in> set (map fst (model vf))"
    and "k \<noteq> kwargs_field_name vf"
  shows "\<exists>vals hva hvk. build_values vf args kwargs = Inr (vals, hva, hvk) \<and> map_of vals k = Some v"
proof -
  obtain vals0 hva where b: "bind_args vf 0 args [] = (vals0, hva)"
    by (cases "bind_args vf 0 args []")
  from bind_kwargs_lookup [OF assms(2,1,3,4), of vals0 "[]"]
  obtain vals1 vk where k1: "bind_kwargs vf kwargs vals0 [] = Inr (vals1, vk)"
    and l: "map_of vals1 k = Some v" by blast
  from b k1 have "build_values vf args kwargs =
      Inr (if vk \<noteq> [] then AList.update (kwargs_field_name vf) (VDict vk) vals1 else vals1,
           hva, vk \<noteq> [])"
    by (simp add: build_values_def)
  moreover from l assms(5)
  have "map_of (if vk \<noteq> [] then AList.update (kwargs_field_name vf) (VDict vk) vals1 else vals1) k
      = Some v"
    by (simp add: AList.update_conv')
  ultimately show ?thesis by blast
qed

text \<open>
  C10 (defect in the code). For \<open>f(kwargs, **kw)\<close> the call
  \<open>wrap(f)(1, kwargs=2, x=3)\<close> supplies the parameter \<open>kwargs\<close> by position and by
  keyword; a direct call is a \<open>TypeError\<close>. The positional walk binds \<open>kwargs = 1\<close> and
  the keyword loop overwrites it with \<open>2\<close> without raising. The overflow label is still
  \<open>kwargs\<close> (the name \<open>kw\<close> went to \<open>_kwargs_field_name\<close>), so line 128 then stores
  the overflow keywords under \<open>kwargs\<close>: in the values that \<open>build_values\<close> returns
  the keyword's value has not won, it is lost, and the wrapped callable is invoked as
  \<open>f(x=3)\<close>.
\<close>

theorem keyword_value_lost_to_overflow_label:
  "\<exists>vf. init f_kwargs_kw = Inr vf
     \<and> kwargs_field_name vf = ''kwargs'' \<and> underscore_kwargs_field_name vf = Some ''kw''
     \<and> bind_args vf 0 [VInt 1] [] = ([(''kwargs'', VInt 1)], False)
     \<and> bind_kwargs vf [(''kwargs'', VInt 2), (''x'', VInt 3)] [(''kwargs'', VInt 1)] [] =
         Inr ([(''kwargs'', VInt 2)], [(''x'', VInt 3)])
     \<and> build_values vf [VInt 1] [(''kwargs'', VInt 2), (''x'', VInt 3)] =
         Inr ([(''kwargs'', VDict [(''x'', VInt 3)])], False, True)
     \<and> invocation vf accept_all [VInt 1] [(''kwargs'', VInt 2), (''x'', VInt 3)] =
         Inr ([], [(''x'', VInt 3)])
     \<and> py_bind f_kwargs_kw [VInt 1] [(''kwargs'', VInt 2), (''x'', VInt 3)] = Inl TypeError"
proof -
  have "py_bind f_kwargs_kw [VInt 1] [(''kwargs'', VInt 2), (''x'', VInt 3)] = Inl TypeError"
    by (simp add: py_bind_def f_kwargs_kw_def param_def positional_def keyword_names_def)
  then show ?thesis
    by (simp add: init_f_kwargs_kw build_values_def invocation_def call_def model_call_def
        accept_all_def execute_def reconstruct_def string_keys_def dict_update_def pop_update_def
        explicit_values_def)
qed

text \<open>
  C5, as the claim states it, fails: for \<open>f(self)\<close> the keyword call \<open>f(self=1)\<close> binds
  and returns, and the argument passes binding and validation unchanged, but
  \<open>wrap(f)(self=1)\<close> raises \<open>TypeError\<close>, because the keyword collides with the first
  parameter of \<open>__call__\<close>.
\<close>

theorem wrapper_rejects_keyword_self:
  "valid_call f_self accept_all [] [(''self'', VInt 1)]
   \<and> py_call f_self return_env [] [(''self'', VInt 1)] = Inr [(''self'', VInt 1)]
   \<and> validate_arguments f_self accept_all (py_call f_self return_env) [] [(''self'', VInt 1)]
       = Inl TypeError"
proof -
  have "py_call f_self return_env [] [(''self'', VInt 1)] = Inr [(''self'', VInt 1)]"
    by (simp add: py_call_def py_bind_def f_self_def param_def positional_def
        keyword_names_def return_env_def)
  then show ?thesis
    by (simp add: valid_call_def init_f_self passes_unchanged_def build_values_def model_call_def
        accept_all_def validate_arguments_def call_def)
qed

text \<open>
  C5, amended. Let every parameter of \<open>f\<close> be positional-or-keyword, let the model have
  none but declared parameters as fields (whatever \<open>create_model\<close> does otherwise), and
  let the arguments of a call pass validation unchanged. Then \<open>wrap(f)(*args)\<close> is
  \<open>f(*args)\<close>, and \<open>wrap(f)(**kwargs)\<close> is \<open>f(**kwargs)\<close> provided no keyword is named
  \<open>self\<close>: the wrapper invokes \<open>f\<close> by keyword with the explicitly set fields, which
  binds the parameters of \<open>f\<close> as the direct call does. A call of the wrapper with a
  keyword named \<open>self\<close> raises \<open>TypeError\<close>.
\<close>

theorem wrapper_equals_direct_call:
  assumes init: "init_with cm ps = Inr vf" and dp: "distinct (map p_name ps)"
    and pk: "\<forall>p\<in>set ps. p_kind p = POSITIONAL_OR_KEYWORD"
    and sub: "set (map fst (model vf)) \<subseteq> set (map p_name ps)"
    and dm: "distinct (map fst (model vf))"
  shows "(passes_unchanged vf coerce args [] \<longrightarrow>
            call vf coerce (py_call ps body) args [] = py_call ps body args [])
       \<and> (distinct (map fst kwargs) \<and> ''self'' \<notin> set (map fst kwargs)
            \<and> passes_unchanged vf coerce [] kwargs \<longrightarrow>
            call vf coerce (py_call ps body) [] kwargs = py_call ps body [] kwargs)
       \<and> (''self'' \<in> set (map fst kwargs) \<longrightarrow>
            call vf coerce raw_function args kwargs = Inl TypeError)"
proof -
  let ?names = "map p_name ps"
  note am = pk_arg_mapping [OF init pk]
  have positional_call:
    "call vf coerce (py_call ps body) args [] = py_call ps body args []"
    if pu: "passes_unchanged vf coerce args []"
  proof -
    have ns: "''self'' \<notin> set (map fst ([] :: py_dict))" by simp
    from pk_call [OF init dp pk sub dm pu ns, of body] obtain vals where
      bv: "build_values vf args [] = Inr (vals, False, False)"
      and c: "call vf coerce (py_call ps body) args [] =
        (case py_env ps (map_of vals) [] [] of Inl e \<Rightarrow> Inl e | Inr env \<Rightarrow> body env)" by blast
    from bv have ba: "bind_args vf 0 args [] = (vals, False)"
      by (cases "bind_args vf 0 args []") (simp add: build_values_def)
    from bind_args_no_overflow [of vf "length ps" ?names 0 args "[]"] ba am
    have len: "length args \<le> length ps" by simp
    from bind_args_mapped [of ?names vf 0 args "[]"] dp am len ba
    have vals: "vals = zip ?names args" by simp
    from len vals have "py_bind ps args [] = py_env ps (map_of vals) [] []"
      by (simp add: py_bind_def pk_filter_positional [OF pk])
    with c show ?thesis by (simp add: py_call_def)
  qed
  have keyword_call:
    "call vf coerce (py_call ps body) [] kwargs = py_call ps body [] kwargs"
    if dk: "distinct (map fst kwargs)" and ns: "''self'' \<notin> set (map fst kwargs)"
      and pu: "passes_unchanged vf coerce [] kwargs"
  proof -
    from pk_call [OF init dp pk sub dm pu ns, of body] obtain vals where
      bv: "build_values vf [] kwargs = Inr (vals, False, False)"
      and c: "call vf coerce (py_call ps body) [] kwargs =
        (case py_env ps (map_of vals) [] [] of Inl e \<Rightarrow> Inl e | Inr env \<Rightarrow> body env)" by blast
    from bv have bk: "bind_kwargs vf kwargs [] [] = Inr (vals, [])"
      by (auto simp: build_values_def split: sum.splits if_splits)
    from bind_kwargs_no_overflow [OF bk]
    have fk: "set (map fst kwargs) \<subseteq> set (map fst (model vf))" .
    from bind_kwargs_fields [OF fk, of "[]" "[]"] dk bk pk_positional_only [OF init pk]
    have vals: "vals = kwargs" by simp
    from fk sub have "set (map fst kwargs) \<subseteq> set (keyword_names ps)"
      by (simp add: pk_keyword_names [OF pk])
    from py_keywords_all [OF this, of "[]" "[]"] dk
    have "py_keywords ps kwargs [] [] = Inr (kwargs, [])" by simp
    with vals have "py_bind ps [] kwargs = py_env ps (map_of vals) [] []"
      by (simp add: py_bind_def)
    with c show ?thesis by (simp add: py_call_def)
  qed
  have self_call: "call vf coerce raw_function args kwargs = Inl TypeError"
    if "''self'' \<in> set (map fst kwargs)"
    using that by (simp add: call_def)
  from positional_call keyword_call self_call show ?thesis by blast
qed

theorem wrapper_equals_direct_call_witness:
  "\<exists>vf vf'. init f_a_b = Inr vf \<and> distinct (map p_name f_a_b)
     \<and> list_all (\<lambda>p. p_kind p = POSITIONAL_OR_KEYWORD) f_a_b
     \<and> set (map fst (model vf)) \<subseteq> set (map p_name f_a_b) \<and> distinct (map fst (model vf))
     \<and> passes_unchanged vf accept_all [VInt 1] []
     \<and> call vf accept_all (py_call f_a_b return_env) [VInt 1] []
         = Inr [(''a'', VInt 1), (''b'', VInt 2)]
     \<and> py_call f_a_b return_env [VInt 1] [] = Inr [(''a'', VInt 1), (''b'', VInt 2)]
     \<and> distinct (map fst [(''b'', VInt 5), (''a'', VInt 1)])
     \<and> ''self'' \<notin> set (map fst [(''b'', VInt 5), (''a'', VInt 1)])
     \<and> passes_unchanged vf accept_all [] [(''b'', VInt 5), (''a'', VInt 1)]
     \<and> call vf accept_all (py_call f_a_b return_env) [] [(''b'', VInt 5), (''a'', VInt 1)]
         = Inr [(''a'', VInt 1), (''b'', VInt 5)]
     \<and> py_call f_a_b return_env [] [(''b'', VInt 5), (''a'', VInt 1)]
         = Inr [(''a'', VInt 1), (''b'', VInt 5)]
     \<and> init f_self = Inr vf' \<and> distinct (map p_name f_self)
     \<and> list_all (\<lambda>p. p_kind p = POSITIONAL_OR_KEYWORD) f_self
     \<and> set (map fst (model vf')) \<subseteq> set (map p_name f_self) \<and> distinct (map fst (model vf'))
     \<and> ''self'' \<in> set (map fst [(''self'', VInt 1)])
     \<and> call vf' accept_all record_call [] [(''self'', VInt 1)] = Inl TypeError"
proof -
  let ?cm = "\<lambda>flds. Inr (create_model flds) :: error + fields"
  let ?vf = "\<lparr>arg_mapping = [0 \<mapsto> ''a'', Suc 0 \<mapsto> ''b''], args_field_name = ''args'',
          kwargs_field_name = ''kwargs'', positional_only_args = {},
          underscore_args_field_name = None, underscore_kwargs_field_name = None,
          model = [(''a'', Any, Required), (''b'', Any, Default (VInt 2))]\<rparr>"
  let ?vf' = "\<lparr>arg_mapping = [0 \<mapsto> ''self''], args_field_name = ''args'', kwargs_field_name = ''kwargs'',
          positional_only_args = {}, underscore_args_field_name = None,
          underscore_kwargs_field_name = None, model = [(''self'', Any, Required)]\<rparr>"
  let ?kw = "[(''b'', VInt 5), (''a'', VInt 1)]"
  have i: "init_with ?cm f_a_b = Inr ?vf" using init_f_a_b by (simp add: init_def)
  have i': "init_with ?cm f_self = Inr ?vf'" using init_f_self by (simp add: init_def)
  have d: "distinct (map p_name f_a_b)" by (simp add: f_a_b_def param_def)
  have pk: "\<forall>p\<in>set f_a_b. p_kind p = POSITIONAL_OR_KEYWORD"
    by (simp add: f_a_b_def param_def)
  then have pk': "list_all (\<lambda>p. p_kind p = POSITIONAL_OR_KEYWORD) f_a_b"
    by (simp add: list_all_iff)
  have m: "set (map fst (model ?vf)) \<subseteq> set (map p_name f_a_b)" "distinct (map fst (model ?vf))"
    by (simp_all add: f_a_b_def param_def)
  have ds: "distinct (map p_name f_self)" by (simp add: f_self_def param_def)
  have pks: "\<forall>p\<in>set f_self. p_kind p = POSITIONAL_OR_KEYWORD"
    by (simp add: f_self_def param_def)
  then have pks': "list_all (\<lambda>p. p_kind p = POSITIONAL_OR_KEYWORD) f_self"
    by (simp add: list_all_iff)
  have ms: "set (map fst (model ?vf')) \<subseteq> set (map p_name f_self)" "distinct (map fst (model ?vf'))"
    by (simp_all add: f_self_def param_def)
  have dk: "distinct (map fst ?kw)" and ns: "''self'' \<notin> set (map fst ?kw)"
    and sk: "''self'' \<in> set (map fst [(''self'', VInt 1)])" by simp_all
  have p1: "passes_unchanged ?vf accept_all [VInt 1] []"
    by (simp add: passes_unchanged_def build_values_def model_call_def accept_all_def)
  have p2: "passes_unchanged ?vf accept_all [] ?kw"
    by (simp add: passes_unchanged_def build_values_def model_call_def accept_all_def)
  have e1: "py_call f_a_b return_env [VInt 1] [] = Inr [(''a'', VInt 1), (''b'', VInt 2)]"
    by (simp add: py_call_def py_bind_def f_a_b_def param_def positional_def return_env_def)
  have e2: "py_call f_a_b return_env [] ?kw = Inr [(''a'', VInt 1), (''b'', VInt 5)]"
    by (simp add: py_call_def py_bind_def f_a_b_def param_def positional_def return_env_def
        keyword_names_def)
  note t = wrapper_equals_direct_call [OF i d pk m, of accept_all _ return_env]
  from t [of "[VInt 1]" "[]"] p1 e1
  have w1: "call ?vf accept_all (py_call f_a_b return_env) [VInt 1] []
         = Inr [(''a'', VInt 1), (''b'', VInt 2)]" by simp
  from t [of "[]" ?kw] p2 dk ns e2
  have w2: "call ?vf accept_all (py_call f_a_b return_env) [] ?kw
         = Inr [(''a'', VInt 1), (''b'', VInt 5)]" by simp
  from wrapper_equals_direct_call [OF i' ds pks ms,
      of accept_all "[]" return_env "[(''self'', VInt 1)]" record_call] sk
  have w3: "call ?vf' accept_all record_call [] [(''self'', VInt 1)] = Inl TypeError"
    by blast
  from init_f_a_b init_f_self d ds pk' pks' m ms dk ns sk p1 p2 e1 e2 w1 w2 w3 show ?thesis
    by (intro exI [of _ ?vf] exI [of _ ?vf'] conjI) assumption+
qed

end
